theory Spec2Isabelle
  imports Main "HOL-Library.AList"
begin

section \<open>Strings\<close>

text \<open>
  A JavaScript string is a sequence of UTF-16 code units. A code unit is modelled by its
  number, so that \<open>length\<close>, \<open>substring\<close> and the character classes of the regular
  expressions count what the server counts. \<open>lit\<close> embeds an ASCII literal of the source.
\<close>

type_synonym jsstring = "nat list"

definition lit :: "string \<Rightarrow> jsstring" where
  "lit s = map of_char s"

lemma lit_empty [simp]: "(lit s = []) = (s = [])"
  by (simp add: lit_def)

definition is_lower :: "nat \<Rightarrow> bool" where
  "is_lower c = (97 \<le> c \<and> c \<le> 122)"

definition is_upper :: "nat \<Rightarrow> bool" where
  "is_upper c = (65 \<le> c \<and> c \<le> 90)"

definition is_digit :: "nat \<Rightarrow> bool" where
  "is_digit c = (48 \<le> c \<and> c \<le> 57)"

text \<open>The class \<open>[a-z0-9]\<close> of the slug's first \<open>replace\<close>.\<close>

definition is_slug_char :: "nat \<Rightarrow> bool" where
  "is_slug_char c = (is_lower c \<or> is_digit c)"

text \<open>
  \<open>String.prototype.toLowerCase\<close>. The ASCII capitals move to their small letters. Two
  other code units have a lower-case form that holds an ASCII letter: U+0130 becomes
  \<open>i\<close> followed by U+0307, and the Kelvin sign U+212A becomes \<open>k\<close>. Every other
  code unit outside ASCII is left as it is: its lower-case form is outside ASCII as well.
\<close>

definition lower_unit :: "nat \<Rightarrow> jsstring" where
  "lower_unit c =
     (if is_upper c then [c + 32]
      else if c = 304 then [105, 775]
      else if c = 8490 then [107]
      else [c])"

definition toLowerCase :: "jsstring \<Rightarrow> jsstring" where
  "toLowerCase s = concat (map lower_unit s)"

text \<open>\<open>s.substring(0, n)\<close> for a string \<open>s\<close>.\<close>

definition substring0 :: "nat \<Rightarrow> jsstring \<Rightarrow> jsstring" where
  "substring0 n s = take n s"

subsection \<open>The slug of an object key\<close>

text \<open>\<open>s.replace(/[^a-z0-9]+/g, '-')\<close>: every maximal run of other code units becomes one hyphen.\<close>

function replace_non_slug_runs :: "jsstring \<Rightarrow> jsstring" where
  "replace_non_slug_runs [] = []"
| "replace_non_slug_runs (c # cs) =
     (if is_slug_char c then c # replace_non_slug_runs cs
      else 45 # replace_non_slug_runs (dropWhile (\<lambda>d. \<not> is_slug_char d) cs))"
  by pat_completeness auto
termination
  by (relation "measure length") (auto simp: less_Suc_eq_le length_dropWhile_le)

text \<open>
  \<open>s.replace(/^-+|-+$/g, '')\<close>: the run of hyphens at the start and the run at the end
  are removed; a run inside the string matches neither alternative.
\<close>

definition strip_hyphens :: "jsstring \<Rightarrow> jsstring" where
  "strip_hyphens s = rev (dropWhile (\<lambda>c. c = 45) (rev (dropWhile (\<lambda>c. c = 45) s)))"

definition sanitizedPrompt :: "jsstring \<Rightarrow> jsstring" where
  "sanitizedPrompt p = substring0 50 (strip_hyphens (replace_non_slug_runs (toLowerCase p)))"

text \<open>The decimal digits of a natural number, as a template literal renders it.\<close>

function digits :: "nat \<Rightarrow> jsstring" where
  "digits n = (if n < 10 then [48 + n] else digits (n div 10) @ [48 + n mod 10])"
  by pat_completeness auto
termination
  by (relation "measure id") auto

declare digits.simps [simp del]

definition objectKey :: "jsstring \<Rightarrow> nat \<Rightarrow> jsstring" where
  "objectKey p timestamp =
     lit ''slides/'' @ sanitizedPrompt p @ lit ''/'' @ digits timestamp @ lit ''.png''"

section \<open>Values\<close>

text \<open>
  The values of a JSON document, and \<open>undefined\<close> for a field that is absent. A number
  is a double; \<open>Num t\<close> is the double that the engine writes as the text \<open>t\<close>
  (\<open>1\<close>, \<open>-2.5\<close>, \<open>1e+21\<close>, \<open>Infinity\<close>, \<open>NaN\<close>). The two zeros are both
  written \<open>0\<close>, and nothing in the server tells them apart. The arithmetic of doubles
  is not modelled: how a number literal is rounded to a double is left to the engine.
\<close>

datatype jsval =
    Undefined
  | Null
  | Bool bool
  | Num jsstring
  | Str jsstring
  | Arr "jsval list"
  | Obj "(jsstring \<times> jsval) list"

text \<open>What \<open>!v\<close> and \<open>v || w\<close> test: a number is falsy when it is a zero or \<open>NaN\<close>.\<close>

fun truthy :: "jsval \<Rightarrow> bool" where
  "truthy Undefined = False"
| "truthy Null = False"
| "truthy (Bool b) = b"
| "truthy (Num t) = (t \<noteq> lit ''0'' \<and> t \<noteq> lit ''NaN'')"
| "truthy (Str s) = (s \<noteq> [])"
| "truthy (Arr xs) = True"
| "truthy (Obj kvs) = True"

text \<open>
  An exception: \<open>new Error(message)\<close> of the source, with its message, or a
  \<open>TypeError\<close> that the engine raises, whose message is the engine's own wording.
\<close>

datatype thrown = Error jsstring | TypeError

subsection \<open>Template literals\<close>

fun join :: "jsstring \<Rightarrow> jsstring list \<Rightarrow> jsstring" where
  "join sep [] = []"
| "join sep [x] = x"
| "join sep (x # y # ys) = x @ sep @ join sep (y # ys)"

text \<open>
  The text that \<open>${v}\<close> puts into a template literal, \<open>None\<close> where the conversion
  raises a \<open>TypeError\<close>: an object of a JSON document that has a field \<open>toString\<close>
  has no callable \<open>toString\<close> and no primitive \<open>valueOf\<close>. A number is the text the
  engine writes for it. An array is the texts of its elements joined by commas, \<open>null\<close>
  and \<open>undefined\<close> elements being empty.
\<close>

fun to_text :: "jsval \<Rightarrow> jsstring option" where
  "to_text Undefined = Some (lit ''undefined'')"
| "to_text Null = Some (lit ''null'')"
| "to_text (Bool b) = Some (if b then lit ''true'' else lit ''false'')"
| "to_text (Num t) = Some t"
| "to_text (Str s) = Some s"
| "to_text (Arr xs) =
     map_option (join (lit '',''))
       (those (map (\<lambda>x. if x = Null \<or> x = Undefined then Some [] else to_text x) xs))"
| "to_text (Obj kvs) =
     (if lit ''toString'' \<in> fst ` set kvs then None else Some (lit ''[object Object]''))"

section \<open>Requests, upstream calls and responses\<close>

text \<open>The fields that the handlers read from \<open>req.body\<close>; an absent field is \<open>Undefined\<close>.\<close>

record body =
  prompt :: jsval
  selectedOption :: jsval
  refinementInstruction :: jsval
  isCustom :: jsval
  imageBase64 :: jsval

text \<open>
  A value as \<open>JSON.stringify\<close> writes it and the caller reads it: a number that is
  not finite is written \<open>null\<close>, as is \<open>undefined\<close> in an array, and a field of an
  object whose value is \<open>undefined\<close> is left out.
\<close>

definition finite_number :: "jsstring \<Rightarrow> bool" where
  "finite_number t = (t \<noteq> lit ''Infinity'' \<and> t \<noteq> lit ''-Infinity'' \<and> t \<noteq> lit ''NaN'')"

fun written :: "jsval \<Rightarrow> jsval" where
  "written Undefined = Undefined"
| "written Null = Null"
| "written (Bool b) = Bool b"
| "written (Num t) = (if finite_number t then Num t else Null)"
| "written (Str s) = Str s"
| "written (Arr xs) = Arr (map (\<lambda>x. if x = Undefined then Null else written x) xs)"
| "written (Obj kvs) =
     Obj (map (\<lambda>(k, v). (k, written v)) (filter (\<lambda>(k, v). v \<noteq> Undefined) kvs))"

text \<open>
  A field of a response body: a value, or the message of a \<open>TypeError\<close> of the engine.
  \<open>res.json\<close> leaves out a field whose value is \<open>undefined\<close> and writes the others.
\<close>

datatype field = Val jsval | Engine_message

fun written_field :: "field \<Rightarrow> field" where
  "written_field (Val v) = Val (written v)"
| "written_field Engine_message = Engine_message"

datatype response = Response nat "(string \<times> field) list"

definition res_json :: "nat \<Rightarrow> (string \<times> field) list \<Rightarrow> response" where
  "res_json code fs =
     Response code
       (map (\<lambda>(k, v). (k, written_field v)) (filter (\<lambda>(k, v). v \<noteq> Val Undefined) fs))"

fun message :: "thrown \<Rightarrow> field" where
  "message (Error m) = Val (Str m)"
| "message TypeError = Engine_message"

text \<open>
  The calls that leave the server: a text generation request and an image generation
  request with their prompts, and the upload of a file to a path of the storage service,
  with the file name and the base64 text of the bytes.
\<close>

datatype call =
    Generate_content jsstring
  | Predict jsstring
  | Put_object jsstring jsstring jsstring

text \<open>
  The answer to a \<open>fetch\<close>. \<open>Not_ok t\<close>: a status outside 200 to 299, with the body
  text \<open>t\<close>. \<open>Ok_json d\<close>: a success, with what the handler reads from the JSON body.
\<close>

datatype 'a reply = Not_ok jsstring | Ok_json 'a

text \<open>
  A text generation body is read through
  \<open>candidates?.[0]?.content?.parts?.[0]?.text\<close>: the text, if there is one. An image
  generation body is its \<open>predictions\<close>, if present, each with its
  \<open>bytesBase64Encoded\<close>, if present.
\<close>

type_synonym text_api = "jsstring \<Rightarrow> jsstring option reply"
type_synonym image_api = "jsstring \<Rightarrow> jsstring option list option reply"

text \<open>
  The answer to \<open>axios.put\<close>: the data of a 2xx response, or an error with the data of
  its response (\<open>Undefined\<close> when there was no response) and its message.
\<close>

datatype put_outcome = Put_ok jsval | Put_error jsval jsstring

type_synonym storage_api = "jsstring \<Rightarrow> jsstring \<Rightarrow> jsstring \<Rightarrow> put_outcome"

text \<open>
  Reading a property \<open>v.k\<close>, for the names \<open>data\<close>, \<open>key\<close>, \<open>url\<close>, \<open>bucket\<close>
  and \<open>uploadedAt\<close> that the upload handler reads: none of them is a property of a
  prototype, so only an object can hold one.
\<close>

fun get_prop :: "jsval \<Rightarrow> jsstring \<Rightarrow> thrown + jsval" where
  "get_prop Undefined k = Inl TypeError"
| "get_prop Null k = Inl TypeError"
| "get_prop (Obj kvs) k = Inr (case map_of kvs k of None \<Rightarrow> Undefined | Some v \<Rightarrow> v)"
| "get_prop v k = Inr Undefined"

text \<open>The string that a method of \<open>String.prototype\<close> is called on.\<close>

fun as_string :: "jsval \<Rightarrow> thrown + jsstring" where
  "as_string (Str s) = Inr s"
| "as_string v = Inl TypeError"

section \<open>Upload\<close>

fun after_prefix :: "jsstring \<Rightarrow> jsstring \<Rightarrow> jsstring option" where
  "after_prefix [] s = Some s"
| "after_prefix (p # ps) [] = None"
| "after_prefix (p # ps) (c # cs) = (if p = c then after_prefix ps cs else None)"

text \<open>The class \<open>\w\<close>.\<close>

definition is_word :: "nat \<Rightarrow> bool" where
  "is_word c = (is_lower c \<or> is_upper c \<or> is_digit c \<or> c = 95)"

text \<open>\<open>s.replace(/^data:image\/\w+;base64,/, '')\<close>\<close>

definition strip_data_uri :: "jsstring \<Rightarrow> jsstring" where
  "strip_data_uri s =
     (case after_prefix (lit ''data:image/'') s of
        None \<Rightarrow> s
      | Some r \<Rightarrow>
          if takeWhile is_word r = [] then s
          else (case after_prefix (lit '';base64,'') (dropWhile is_word r) of
                  None \<Rightarrow> s
                | Some d \<Rightarrow> d))"

definition upload_failed :: "field \<Rightarrow> response" where
  "upload_failed details =
     res_json 500 [(''error'', Val (Str (lit ''Upload to InsForge failed''))), (''details'', details)]"

text \<open>The response to a stored upload, from the data \<open>d\<close> of the storage service's answer.\<close>

definition upload_stored :: "jsstring \<Rightarrow> jsval \<Rightarrow> thrown + response" where
  "upload_stored key d =
     (case get_prop d (lit ''data'') of
        Inl e \<Rightarrow> Inl e
      | Inr inner \<Rightarrow>
          (let data = (if truthy inner then inner else d) in
           case get_prop data (lit ''key'') of
             Inl e \<Rightarrow> Inl e
           | Inr k \<Rightarrow>
          (case get_prop data (lit ''url'') of
             Inl e \<Rightarrow> Inl e
           | Inr u \<Rightarrow>
          (case get_prop data (lit ''bucket'') of
             Inl e \<Rightarrow> Inl e
           | Inr bk \<Rightarrow>
          (case get_prop data (lit ''uploadedAt'') of
             Inl e \<Rightarrow> Inl e
           | Inr at \<Rightarrow>
               Inr (res_json 200
                 [(''success'', Val (Bool True)), (''key'', Val k), (''fileName'', Val (Str key)),
                  (''fileUrl'', Val u), (''bucket'', Val bk), (''uploadedAt'', Val at)]))))))"

text \<open>
  \<open>POST /upload\<close>, at the time \<open>now\<close> of \<open>Date.now()\<close>. The result is the calls made
  and the response.
\<close>

definition upload :: "storage_api \<Rightarrow> nat \<Rightarrow> body \<Rightarrow> call list \<times> response" where
  "upload storage now b =
     (if \<not> truthy (imageBase64 b) then
        ([], res_json 400 [(''error'', Val (Str (lit ''Image data is required'')))])
      else
        (case as_string (imageBase64 b) of
           Inl e \<Rightarrow> ([], upload_failed (message e))
         | Inr img \<Rightarrow>
        (case as_string (prompt b) of
           Inl e \<Rightarrow> ([], upload_failed (message e))
         | Inr p \<Rightarrow>
             (let base64Data = strip_data_uri img;
                  key = objectKey p now;
                  path = lit ''/api/storage/buckets/slides/objects/'' @ key;
                  filename = digits now @ lit ''.png''
              in (case storage path filename base64Data of
                    Put_error d m \<Rightarrow>
                      ([Put_object path filename base64Data],
                       upload_failed (Val (if truthy d then d else Str m)))
                  | Put_ok d \<Rightarrow>
                      ([Put_object path filename base64Data],
                       (case upload_stored key d of
                          Inl e \<Rightarrow> upload_failed (message e)
                        | Inr r \<Rightarrow> r)))))))"

section \<open>The style options\<close>

definition concepts :: "jsstring list" where
  "concepts =
     [lit ''minimalist with bold typography'',
      lit ''with data visualization focus'',
      lit ''with icon-heavy design'']"

text \<open>A JSON object literal: \<open>res.json\<close> leaves out the fields that are \<open>undefined\<close>.\<close>

definition json_obj :: "(string \<times> jsval) list \<Rightarrow> jsval" where
  "json_obj kvs = Obj (map (\<lambda>(k, v). (lit k, v)) (filter (\<lambda>(k, v). v \<noteq> Undefined) kvs))"

definition from_option :: "jsstring option \<Rightarrow> jsval" where
  "from_option x = (case x of None \<Rightarrow> Undefined | Some s \<Rightarrow> Str s)"

text \<open>\<open>`data:image/png;base64,${x}`\<close>, for a string or \<open>undefined\<close>.\<close>

definition data_uri :: "jsstring option \<Rightarrow> jsstring" where
  "data_uri x =
     lit ''data:image/png;base64,'' @ (case x of None \<Rightarrow> lit ''undefined'' | Some s \<Rightarrow> s)"

section \<open>Generating the three options\<close>

definition option_prompt :: "jsstring \<Rightarrow> jsstring \<Rightarrow> jsstring" where
  "option_prompt idea concept =
     lit ''Simple rough sketch of a business pitch slide for: '' @ idea @
     lit ''. Style: '' @ concept @
     lit ''. Wireframe style, basic layout, minimal detail, grayscale or simple colors, placeholder text blocks. Think of this as a preliminary concept sketch.''"

text \<open>\<open>data.predictions?.[0]?.bytesBase64Encoded\<close>\<close>

fun first_bytes :: "jsstring option list option \<Rightarrow> jsstring option" where
  "first_bytes None = None"
| "first_bytes (Some []) = None"
| "first_bytes (Some (x # xs)) = x"

text \<open>What the promise of the option at \<open>index\<close> settles to, from the answer to its call.\<close>

fun option_result :: "nat \<Rightarrow> jsstring \<Rightarrow> jsstring option list option reply \<Rightarrow> thrown + jsval" where
  "option_result index concept (Not_ok t) =
     Inl (Error (lit ''Option '' @ digits (index + 1) @ lit '' generation failed''))"
| "option_result index concept (Ok_json predictions) =
     Inr (json_obj
       [(''id'', Num (digits (index + 1))),
        (''concept'', Str concept),
        (''imageBase64'', from_option (first_bytes predictions)),
        (''image'', Str (data_uri (first_bytes predictions)))])"

text \<open>
  \<open>Promise.all\<close> over promises that settle in the order \<open>settled\<close> of their indices
  (those not listed settle afterwards, in the order of their indices): the first to
  reject rejects the whole; if none does, the values come in the order of the promises.
\<close>

definition promise_all :: "nat list \<Rightarrow> (thrown + 'a) list \<Rightarrow> thrown + 'a list" where
  "promise_all settled ps =
     (case find (\<lambda>i. isl (ps ! i)) (filter (\<lambda>i. i < length ps) (settled @ [0..<length ps])) of
        Some i \<Rightarrow> Inl (projl (ps ! i))
      | None \<Rightarrow> Inr (map projr ps))"

text \<open>
  \<open>POST /generate-options\<close>. The three calls leave together, whatever their answers;
  \<open>settled\<close> is the order in which the three promises settle.
\<close>

definition generate_options :: "image_api \<Rightarrow> nat list \<Rightarrow> body \<Rightarrow> call list \<times> response" where
  "generate_options imagen settled b =
     (if \<not> truthy (prompt b) then
        ([], res_json 400 [(''error'', Val (Str (lit ''Prompt is required'')))])
      else
        (case to_text (prompt b) of
           None \<Rightarrow> ([], res_json 500 [(''error'', message TypeError)])
         | Some idea \<Rightarrow>
             (let prompts = map (option_prompt idea) concepts;
                  promises = map (\<lambda>(index, concept).
                      option_result index concept (imagen (option_prompt idea concept)))
                    (enumerate 0 concepts)
              in (map Predict prompts,
                  (case promise_all settled promises of
                     Inl e \<Rightarrow> res_json 500 [(''error'', message e)]
                   | Inr options \<Rightarrow>
                       res_json 200 [(''success'', Val (Bool True)), (''options'', Val (Arr options))])))))"

section \<open>The selected style\<close>

text \<open>
  \<open>concepts[k]\<close> as a template literal shows it, for a property key \<open>k\<close>: one of the
  three styles, the length of the array, or a property that an array inherits from its
  prototypes (\<open>map\<close>, \<open>constructor\<close> and so on), whose text \<open>inherited k\<close> is the
  engine's; \<open>undefined\<close> otherwise.
\<close>

definition concept_of_key :: "(jsstring \<Rightarrow> jsstring option) \<Rightarrow> jsstring \<Rightarrow> jsstring" where
  "concept_of_key inherited k =
     (if k = lit ''0'' then concepts ! 0
      else if k = lit ''1'' then concepts ! 1
      else if k = lit ''2'' then concepts ! 2
      else if k = lit ''length'' then lit ''3''
      else (case inherited k of None \<Rightarrow> lit ''undefined'' | Some t \<Rightarrow> t))"

text \<open>
  \<open>`${concepts[selectedOption]}`\<close>, \<open>None\<close> where the conversion of \<open>selectedOption\<close>
  to a property key raises a \<open>TypeError\<close>. The key of a string is the string, the key
  of an array is its text. The key of a number is the text the engine writes for it,
  which names an index or no property of an array; the keys of the other values
  (\<open>null\<close>, \<open>true\<close>, \<open>false\<close>, \<open>[object Object]\<close>) name nothing.
\<close>

fun selectedConcept :: "(jsstring \<Rightarrow> jsstring option) \<Rightarrow> jsval \<Rightarrow> jsstring option" where
  "selectedConcept inherited (Str k) = Some (concept_of_key inherited k)"
| "selectedConcept inherited (Arr xs) = map_option (concept_of_key inherited) (to_text (Arr xs))"
| "selectedConcept inherited (Num t) =
     Some (if t = lit ''0'' then concepts ! 0
           else if t = lit ''1'' then concepts ! 1
           else if t = lit ''2'' then concepts ! 2
           else lit ''undefined'')"
| "selectedConcept inherited v = map_option (concept_of_key (\<lambda>k. None)) (to_text v)"

section \<open>The concept summary\<close>

definition nl :: jsstring where
  "nl = [10]"

definition bullet :: jsstring where
  "bullet = [8226]"

definition quote :: jsstring where
  "quote = [34]"

text \<open>The text after the first occurrence of \<open>m\<close> in a string, if \<open>m\<close> occurs.\<close>

fun after_first :: "jsstring \<Rightarrow> jsstring \<Rightarrow> jsstring option" where
  "after_first m [] = after_prefix m []"
| "after_first m (c # cs) =
     (case after_prefix m (c # cs) of Some r \<Rightarrow> Some r | None \<Rightarrow> after_first m cs)"

text \<open>\<open>([\s\S]*?)(?=\n\n|$)\<close>: the shortest text that two line feeds or the end follow.\<close>

fun until_blank_line :: "jsstring \<Rightarrow> jsstring" where
  "until_blank_line [] = []"
| "until_blank_line [c] = [c]"
| "until_blank_line (c # d # cs) =
     (if c = 10 \<and> d = 10 then [] else c # until_blank_line (d # cs))"

text \<open>The capture of \<open>s.match(/SLIDE CONCEPT:([\s\S]*?)(?=\n\n|$)/)\<close>, if the match succeeds.\<close>

definition conceptMatch :: "jsstring \<Rightarrow> jsstring option" where
  "conceptMatch s = map_option until_blank_line (after_first (lit ''SLIDE CONCEPT:'') s)"

text \<open>The white space and line terminators that \<open>trim\<close> removes.\<close>

definition is_space :: "nat \<Rightarrow> bool" where
  "is_space c =
     (c \<in> {9, 10, 11, 12, 13, 32, 160, 5760, 8232, 8233, 8239, 8287, 12288, 65279}
      \<or> (8192 \<le> c \<and> c \<le> 8202))"

definition trim :: "jsstring \<Rightarrow> jsstring" where
  "trim s = rev (dropWhile is_space (rev (dropWhile is_space s)))"

text \<open>\<open>s.replace(/\*\*/g, '')\<close>\<close>

fun remove_bold :: "jsstring \<Rightarrow> jsstring" where
  "remove_bold [] = []"
| "remove_bold [c] = [c]"
| "remove_bold (c # d # cs) =
     (if c = 42 \<and> d = 42 then remove_bold cs else c # remove_bold (d # cs))"

text \<open>\<open>text || prompt\<close>, for the text of the model's answer, if any.\<close>

definition or_prompt :: "jsstring option \<Rightarrow> jsval \<Rightarrow> jsval" where
  "or_prompt t p = (case t of None \<Rightarrow> p | Some s \<Rightarrow> if s = [] then p else Str s)"

text \<open>
  The end of both slide handlers: the response to the answer of the image call.
  \<open>extra\<close> holds the further fields of a success.
\<close>

fun slide_response :: "jsstring \<Rightarrow> (string \<times> field) list \<Rightarrow> jsstring option list option reply \<Rightarrow> response" where
  "slide_response description extra (Not_ok errorText) =
     res_json 500
       [(''error'', Val (Str (lit ''Image generation failed''))), (''details'', Val (Str errorText))]"
| "slide_response description extra (Ok_json (Some (x # xs))) =
     res_json 200
       ([(''success'', Val (Bool True)),
         (''image'', Val (Str (data_uri x))),
         (''imageBase64'', Val (from_option x)),
         (''description'', Val (Str description))] @ extra)"
| "slide_response description extra (Ok_json predictions) =
     res_json 500 [(''error'', Val (Str (lit ''No image generated'')))]"

section \<open>Generating the final slide\<close>

definition final_text_prompt :: "jsstring \<Rightarrow> jsstring \<Rightarrow> jsstring" where
  "final_text_prompt idea concept =
     lit ''You are a professional business presentation designer. Create a sophisticated business pitch slide for this idea: '' @
     quote @ idea @ quote @ nl @ nl @
     lit ''Design style: '' @ concept @ nl @ nl @
     lit ''First, provide a concise slide concept summary (for display to user) in this exact format:'' @ nl @
     lit ''SLIDE CONCEPT:'' @ nl @
     bullet @ lit '' Headline: [short, catchy title]'' @ nl @
     bullet @ lit '' Style: '' @ concept @ nl @
     bullet @ lit '' Key Points: [3 short bullet points max 6 words each]'' @ nl @ nl @
     lit ''Then, describe the visual layout for image generation. Be specific about typography, colors, layout, and visual elements for creating an investor-ready pitch slide.''"

definition final_image_prompt :: "jsstring \<Rightarrow> jsstring" where
  "final_image_prompt fullDescription =
     lit ''Ultra high-end professional business pitch slide: '' @ fullDescription @
     lit ''. Stunning visual design, investor-ready quality, crisp typography, perfect color harmony, print-quality resolution, modern aesthetic, Appropriate for Silicon Valley VC presentations.''"

definition final_fallback :: "jsstring \<Rightarrow> jsstring \<Rightarrow> jsstring" where
  "final_fallback idea concept =
     bullet @ lit '' Headline: '' @ substring0 50 idea @ lit ''...'' @ nl @
     bullet @ lit '' Style: '' @ concept @ nl @
     bullet @ lit '' Key Points: Professional pitch design''"

text \<open>
  The summary of \<open>POST /generate-final\<close>. The fallback calls \<open>prompt.substring\<close>,
  which only a string has.
\<close>

definition final_display :: "jsstring \<Rightarrow> jsval \<Rightarrow> jsstring \<Rightarrow> thrown + jsstring" where
  "final_display fullDescription p concept =
     (case conceptMatch fullDescription of
        Some block \<Rightarrow> Inr (remove_bold (trim block))
      | None \<Rightarrow>
          (case as_string p of
             Inl e \<Rightarrow> Inl e
           | Inr idea \<Rightarrow> Inr (final_fallback idea concept)))"

text \<open>
  \<open>POST /generate-final\<close>: the text call, then the image call with the whole
  description.
\<close>

definition generate_final ::
  "(jsstring \<Rightarrow> jsstring option) \<Rightarrow> text_api \<Rightarrow> image_api \<Rightarrow> body \<Rightarrow> call list \<times> response" where
  "generate_final inherited gemini imagen b =
     (if \<not> truthy (prompt b) \<or> selectedOption b = Undefined then
        ([], res_json 400 [(''error'', Val (Str (lit ''Prompt and selected option are required'')))])
      else
        (case (selectedConcept inherited (selectedOption b), to_text (prompt b)) of
           (Some concept, Some idea) \<Rightarrow>
             (let textPrompt = final_text_prompt idea concept in
              case gemini textPrompt of
                Not_ok t \<Rightarrow>
                  ([Generate_content textPrompt],
                   res_json 500 [(''error'', message (Error (lit ''Text generation failed'')))])
              | Ok_json t \<Rightarrow>
                  (case as_string (or_prompt t (prompt b)) of
                     Inl e \<Rightarrow> ([Generate_content textPrompt], res_json 500 [(''error'', message e)])
                   | Inr fullDescription \<Rightarrow>
                  (case final_display fullDescription (prompt b) concept of
                     Inl e \<Rightarrow> ([Generate_content textPrompt], res_json 500 [(''error'', message e)])
                   | Inr description \<Rightarrow>
                       ([Generate_content textPrompt, Predict (final_image_prompt fullDescription)],
                        slide_response description []
                          (imagen (final_image_prompt fullDescription))))))
         | _ \<Rightarrow> ([], res_json 500 [(''error'', message TypeError)])))"

section \<open>Refining the slide\<close>

definition refine_text_prompt :: "jsstring \<Rightarrow> jsstring \<Rightarrow> jsstring \<Rightarrow> jsstring" where
  "refine_text_prompt idea concept instruction =
     lit ''You are a professional business presentation designer. Create a REFINED business pitch slide.'' @ nl @ nl @
     lit ''Original idea: '' @ quote @ idea @ quote @ nl @
     lit ''Design style: '' @ concept @ nl @
     lit ''REFINEMENT: '' @ instruction @ nl @ nl @
     lit ''First, provide a concise slide concept summary (for display to user) in this exact format:'' @ nl @
     lit ''SLIDE CONCEPT:'' @ nl @
     bullet @ lit '' Headline: [short, catchy title]'' @ nl @
     bullet @ lit '' Style: '' @ concept @ nl @
     bullet @ lit '' Refinement: '' @ substring0 30 instruction @ lit ''...'' @ nl @
     bullet @ lit '' Key Points: [3 short bullet points max 6 words each]'' @ nl @ nl @
     lit ''Then, describe the visual layout for image generation incorporating the refinement. Be specific about typography, colors, layout, and visual elements for creating an improved investor-ready pitch slide.''"

definition refine_image_prompt :: "jsstring \<Rightarrow> jsstring" where
  "refine_image_prompt fullDescription =
     lit ''Ultra high-end professional business pitch slide (REFINED VERSION): '' @ fullDescription @
     lit ''. Stunning visual design, investor-ready quality, crisp typography, perfect color harmony, print-quality resolution, modern aesthetic, Appropriate for Silicon Valley VC presentations. This is an IMPROVED, more polished version with enhanced visual appeal.''"

definition refine_fallback :: "jsstring \<Rightarrow> jsstring \<Rightarrow> jsstring" where
  "refine_fallback idea concept =
     bullet @ lit '' Headline: '' @ substring0 40 idea @ lit ''...'' @ nl @
     bullet @ lit '' Style: '' @ concept @ nl @
     bullet @ lit '' Refinement: Applied''"

definition refine_display :: "jsstring \<Rightarrow> jsval \<Rightarrow> jsstring \<Rightarrow> thrown + jsstring" where
  "refine_display fullDescription p concept =
     (case conceptMatch fullDescription of
        Some block \<Rightarrow> Inr (remove_bold (trim block))
      | None \<Rightarrow>
          (case as_string p of
             Inl e \<Rightarrow> Inl e
           | Inr idea \<Rightarrow> Inr (refine_fallback idea concept)))"

text \<open>
  \<open>POST /refine-slide\<close>. The text prompt calls \<open>refinementInstruction.substring\<close>,
  which only a string has. \<open>isCustom\<close> is read from the body and not used.
\<close>

definition refine_slide ::
  "(jsstring \<Rightarrow> jsstring option) \<Rightarrow> text_api \<Rightarrow> image_api \<Rightarrow> body \<Rightarrow> call list \<times> response" where
  "refine_slide inherited gemini imagen b =
     (if \<not> truthy (prompt b) \<or> selectedOption b = Undefined \<or> \<not> truthy (refinementInstruction b) then
        ([], res_json 400
           [(''error'', Val (Str (lit ''Prompt, selected option, and refinement instruction are required'')))])
      else
        (case (selectedConcept inherited (selectedOption b), to_text (prompt b),
               as_string (refinementInstruction b)) of
           (Some concept, Some idea, Inr instruction) \<Rightarrow>
             (let textPrompt = refine_text_prompt idea concept instruction in
              case gemini textPrompt of
                Not_ok t \<Rightarrow>
                  ([Generate_content textPrompt],
                   res_json 500 [(''error'', message (Error (lit ''Refined description generation failed'')))])
              | Ok_json t \<Rightarrow>
                  (case as_string (or_prompt t (prompt b)) of
                     Inl e \<Rightarrow> ([Generate_content textPrompt], res_json 500 [(''error'', message e)])
                   | Inr fullDescription \<Rightarrow>
                  (case refine_display fullDescription (prompt b) concept of
                     Inl e \<Rightarrow> ([Generate_content textPrompt], res_json 500 [(''error'', message e)])
                   | Inr description \<Rightarrow>
                       ([Generate_content textPrompt, Predict (refine_image_prompt fullDescription)],
                        slide_response description [(''isRefinement'', Val (Bool True))]
                          (imagen (refine_image_prompt fullDescription))))))
         | _ \<Rightarrow> ([], res_json 500 [(''error'', message TypeError)])))"

section \<open>\<open>JSON.parse\<close>\<close>

subsection \<open>Tokens\<close>

datatype token =
    LBracket | RBracket | LBrace | RBrace | Comma | Colon
  | TString jsstring
  | TNumber jsstring
  | TTrue | TFalse | TNull

text \<open>The white space of JSON: tab, line feed, carriage return and space.\<close>

definition is_json_space :: "nat \<Rightarrow> bool" where
  "is_json_space c = (c = 9 \<or> c = 10 \<or> c = 13 \<or> c = 32)"

definition hex_value :: "nat \<Rightarrow> nat option" where
  "hex_value c =
     (if is_digit c then Some (c - 48)
      else if 97 \<le> c \<and> c \<le> 102 then Some (c - 87)
      else if 65 \<le> c \<and> c \<le> 70 then Some (c - 55)
      else None)"

definition escape_value :: "nat \<Rightarrow> nat option" where
  "escape_value c =
     (if c = 34 \<or> c = 92 \<or> c = 47 then Some c
      else if c = 98 then Some 8
      else if c = 102 then Some 12
      else if c = 110 then Some 10
      else if c = 114 then Some 13
      else if c = 116 then Some 9
      else None)"

text \<open>
  A string, read from behind its opening quote: the code units of the string and the
  input behind the closing quote. A control character, an unknown escape and a missing
  closing quote are errors.
\<close>

fun lex_string :: "jsstring \<Rightarrow> (jsstring \<times> jsstring) option" where
  "lex_string [] = None"
| "lex_string (c # cs) =
     (if c = 34 then Some ([], cs)
      else if c < 32 then None
      else if c = 92 then
        (case cs of
           [] \<Rightarrow> None
         | e # es \<Rightarrow>
             if e = 117 then
               (case es of
                  h1 # h2 # h3 # h4 # rest \<Rightarrow>
                    (case (hex_value h1, hex_value h2, hex_value h3, hex_value h4) of
                       (Some a, Some b, Some c', Some d) \<Rightarrow>
                         map_option (\<lambda>(s, r). ((((a * 16 + b) * 16 + c') * 16 + d) # s, r))
                           (lex_string rest)
                     | _ \<Rightarrow> None)
                | _ \<Rightarrow> None)
             else
               (case escape_value e of
                  None \<Rightarrow> None
                | Some v \<Rightarrow> map_option (\<lambda>(s, r). (v # s, r)) (lex_string es)))
      else map_option (\<lambda>(s, r). (c # s, r)) (lex_string cs))"

text \<open>
  A number literal, read from its first code unit (a minus sign or a digit): an integer
  part without a leading zero, then a fraction and an exponent, each optional. The parts
  are read one after the other, each giving its text and the input behind it.
\<close>

definition lex_integer :: "jsstring \<Rightarrow> (jsstring \<times> jsstring) option" where
  "lex_integer s =
     (let sign = (if s \<noteq> [] \<and> hd s = 45 then [45] else []);
          s1 = drop (length sign) s;
          ip = (if s1 \<noteq> [] \<and> hd s1 = 48 then [48] else takeWhile is_digit s1)
      in if ip = [] then None else Some (sign @ ip, drop (length ip) s1))"

definition lex_fraction :: "jsstring \<Rightarrow> (jsstring \<times> jsstring) option" where
  "lex_fraction s =
     (if s \<noteq> [] \<and> hd s = 46 then
        (if takeWhile is_digit (tl s) = [] then None
         else Some (46 # takeWhile is_digit (tl s), dropWhile is_digit (tl s)))
      else Some ([], s))"

definition lex_exponent :: "jsstring \<Rightarrow> (jsstring \<times> jsstring) option" where
  "lex_exponent s =
     (if s \<noteq> [] \<and> (hd s = 101 \<or> hd s = 69) then
        (let sign = (if tl s \<noteq> [] \<and> (hd (tl s) = 45 \<or> hd (tl s) = 43) then [hd (tl s)] else []);
             s1 = drop (length sign) (tl s)
         in if takeWhile is_digit s1 = [] then None
            else Some (hd s # sign @ takeWhile is_digit s1, dropWhile is_digit s1))
      else Some ([], s))"

definition lex_number :: "jsstring \<Rightarrow> (token \<times> jsstring) option" where
  "lex_number s =
     (case lex_integer s of
        None \<Rightarrow> None
      | Some (ip, s2) \<Rightarrow>
     (case lex_fraction s2 of
        None \<Rightarrow> None
      | Some (fp, s3) \<Rightarrow>
     (case lex_exponent s3 of
        None \<Rightarrow> None
      | Some (ep, s4) \<Rightarrow> Some (TNumber (ip @ fp @ ep), s4))))"

lemma after_prefix_length: "after_prefix p s = Some r \<Longrightarrow> length r + length p = length s"
  by (induction p s rule: after_prefix.induct) (auto split: if_splits)

lemma lex_string_length: "lex_string s = Some (t, r) \<Longrightarrow> length r < length s"
proof (induction s arbitrary: t r rule: length_induct)
  case (1 s)
  show ?case
  proof (cases s)
    case Nil
    with "1.prems" show ?thesis by simp
  next
    case (Cons c cs)
    have shorter: "\<And>u t' r'. length u < length s \<Longrightarrow> lex_string u = Some (t', r') \<Longrightarrow> length r' < length u"
      using "1.IH" by blast
    from "1.prems" Cons show ?thesis
      by (auto split: if_splits list.splits option.splits dest!: shorter [rotated])
  qed
qed

lemma lex_integer_length: "lex_integer s = Some (ip, r) \<Longrightarrow> length r < length s"
proof -
  assume a: "lex_integer s = Some (ip, r)"
  define s1 where "s1 = drop (length (if s \<noteq> [] \<and> hd s = 45 then [45] else [])) s"
  define ds where "ds = (if s1 \<noteq> [] \<and> hd s1 = 48 then [48] else takeWhile is_digit s1)"
  have "ds \<noteq> []" and r: "r = drop (length ds) s1"
    using a unfolding lex_integer_def Let_def s1_def ds_def by (auto split: if_splits)
  then have "0 < length ds" and "length ds \<le> length s1"
    unfolding ds_def using length_takeWhile_le [of is_digit s1] by (cases s1; auto)+
  then have "length r < length s1" using r by (cases ds) auto
  moreover have "length s1 \<le> length s"
    unfolding s1_def by simp
  ultimately show ?thesis by simp
qed

lemma lex_fraction_length: "lex_fraction s = Some (fp, r) \<Longrightarrow> length r \<le> length s"
  unfolding lex_fraction_def
  by (cases s) (auto split: if_splits intro: le_SucI length_dropWhile_le)

lemma lex_exponent_length: "lex_exponent s = Some (ep, r) \<Longrightarrow> length r \<le> length s"
proof -
  have shorter: "length (dropWhile is_digit (drop n (tl u))) \<le> length u" for n u
    using length_dropWhile_le [of is_digit "drop n (tl u)"] by simp
  assume "lex_exponent s = Some (ep, r)"
  then show ?thesis
    unfolding lex_exponent_def Let_def using shorter shorter [of 0, simplified]
    by (auto split: if_splits)
qed

lemma lex_number_length: "lex_number s = Some (t, r) \<Longrightarrow> length r < length s"
  unfolding lex_number_def
  by (auto split: option.splits dest!: lex_integer_length lex_fraction_length lex_exponent_length)

text \<open>The tokens of a text, \<open>None\<close> when some part of it is no token of JSON.\<close>

function lex :: "jsstring \<Rightarrow> token list option" where
  "lex [] = Some []"
| "lex (c # cs) =
     (if is_json_space c then lex cs
      else if c = 91 then map_option (Cons LBracket) (lex cs)
      else if c = 93 then map_option (Cons RBracket) (lex cs)
      else if c = 123 then map_option (Cons LBrace) (lex cs)
      else if c = 125 then map_option (Cons RBrace) (lex cs)
      else if c = 44 then map_option (Cons Comma) (lex cs)
      else if c = 58 then map_option (Cons Colon) (lex cs)
      else if c = 34 then
        (case lex_string cs of
           None \<Rightarrow> None
         | Some (str, rest) \<Rightarrow> map_option (Cons (TString str)) (lex rest))
      else if c = 45 \<or> is_digit c then
        (case lex_number (c # cs) of
           None \<Rightarrow> None
         | Some (t, rest) \<Rightarrow> map_option (Cons t) (lex rest))
      else
        (case after_prefix (lit ''true'') (c # cs) of
           Some rest \<Rightarrow> map_option (Cons TTrue) (lex rest)
         | None \<Rightarrow>
        (case after_prefix (lit ''false'') (c # cs) of
           Some rest \<Rightarrow> map_option (Cons TFalse) (lex rest)
         | None \<Rightarrow>
        (case after_prefix (lit ''null'') (c # cs) of
           Some rest \<Rightarrow> map_option (Cons TNull) (lex rest)
         | None \<Rightarrow> None))))"
  by pat_completeness auto
termination
proof (relation "measure length")
  show "wf (measure length)" by simp
next
  fix c cs x2 str rest
  assume "lex_string cs = Some x2" and "(str, rest) = x2"
  then show "(rest, c # cs) \<in> measure length"
    using lex_string_length [of cs str rest] by simp
next
  fix c cs x2 t rest
  assume "lex_number (c # cs) = Some x2" and "(t, rest) = x2"
  then show "(rest, c # cs) \<in> measure length"
    using lex_number_length [of "c # cs" t rest] by simp
qed (auto dest!: after_prefix_length split: if_splits simp: lit_def)

subsection \<open>Values from tokens\<close>

text \<open>
  The parser keeps the arrays and objects that are still open, the innermost first, each
  with what it holds so far and what it waits for. \<open>reader\<close> is the engine's reading of
  a number literal: the double nearest to it, as the text the engine writes for it.
\<close>

datatype frame =
    Array_open
  | Array_item "jsval list"
  | Array_comma "jsval list"
  | Object_open
  | Object_key "(jsstring \<times> jsval) list" jsstring
  | Object_colon "(jsstring \<times> jsval) list" jsstring
  | Object_item "(jsstring \<times> jsval) list"
  | Object_comma "(jsstring \<times> jsval) list"

datatype pstate = Parsing "frame list" | Finished jsval

text \<open>A complete value goes to the innermost open frame, which must wait for one.\<close>

fun give :: "jsval \<Rightarrow> frame list \<Rightarrow> pstate option" where
  "give v [] = Some (Finished v)"
| "give v (Array_open # st) = Some (Parsing (Array_item [v] # st))"
| "give v (Array_comma vs # st) = Some (Parsing (Array_item (vs @ [v]) # st))"
| "give v (Object_colon kvs k # st) = Some (Parsing (Object_item (AList.update k v kvs) # st))"
| "give v (f # st) = None"

fun expects_value :: "frame list \<Rightarrow> bool" where
  "expects_value [] = True"
| "expects_value (Array_open # st) = True"
| "expects_value (Array_comma vs # st) = True"
| "expects_value (Object_colon kvs k # st) = True"
| "expects_value (f # st) = False"

fun step :: "(jsstring \<Rightarrow> jsstring) \<Rightarrow> token \<Rightarrow> frame list \<Rightarrow> pstate option" where
  "step reader LBracket st = (if expects_value st then Some (Parsing (Array_open # st)) else None)"
| "step reader LBrace st = (if expects_value st then Some (Parsing (Object_open # st)) else None)"
| "step reader RBracket (Array_open # st) = give (Arr []) st"
| "step reader RBracket (Array_item vs # st) = give (Arr vs) st"
| "step reader RBrace (Object_open # st) = give (Obj []) st"
| "step reader RBrace (Object_item kvs # st) = give (Obj kvs) st"
| "step reader Comma (Array_item vs # st) = Some (Parsing (Array_comma vs # st))"
| "step reader Comma (Object_item kvs # st) = Some (Parsing (Object_comma kvs # st))"
| "step reader Colon (Object_key kvs k # st) = Some (Parsing (Object_colon kvs k # st))"
| "step reader (TString s) (Object_open # st) = Some (Parsing (Object_key [] s # st))"
| "step reader (TString s) (Object_comma kvs # st) = Some (Parsing (Object_key kvs s # st))"
| "step reader (TString s) st = give (Str s) st"
| "step reader (TNumber literal) st = give (Num (reader literal)) st"
| "step reader TTrue st = give (Bool True) st"
| "step reader TFalse st = give (Bool False) st"
| "step reader TNull st = give Null st"
| "step reader t st = None"

text \<open>A token after the value is complete is an error.\<close>

fun run :: "(jsstring \<Rightarrow> jsstring) \<Rightarrow> token list \<Rightarrow> pstate \<Rightarrow> pstate option" where
  "run reader [] p = Some p"
| "run reader (t # ts) (Finished v) = None"
| "run reader (t # ts) (Parsing st) =
     (case step reader t st of None \<Rightarrow> None | Some p \<Rightarrow> run reader ts p)"

text \<open>\<open>JSON.parse(s)\<close>, \<open>None\<close> where it raises a \<open>SyntaxError\<close>.\<close>

definition JSON_parse :: "(jsstring \<Rightarrow> jsstring) \<Rightarrow> jsstring \<Rightarrow> jsval option" where
  "JSON_parse reader s =
     (case lex s of
        None \<Rightarrow> None
      | Some ts \<Rightarrow>
          (case run reader ts (Parsing []) of
             Some (Finished v) \<Rightarrow> Some v
           | _ \<Rightarrow> None))"

section \<open>Refinement suggestions\<close>

definition suggestions_prompt :: "jsstring \<Rightarrow> jsstring" where
  "suggestions_prompt idea =
     lit ''You are an expert presentation designer. Based on this business idea: '' @
     quote @ idea @ quote @ nl @ nl @
     lit ''Suggest 3 specific ways to IMPROVE and REFINE a pitch slide for this idea. Each suggestion should be actionable and different from the others.'' @ nl @ nl @
     lit ''Format your response as a JSON array of strings, like this:'' @ nl @
     lit ''['' @ nl @
     lit ''  '' @ quote @ lit ''Make it more visual with data charts and infographics'' @ quote @ lit '','' @ nl @
     lit ''  '' @ quote @ lit ''Add customer testimonials and social proof'' @ quote @ lit '','' @ nl @
     lit ''  '' @ quote @ lit ''Emphasize the revenue model with clear financial projections'' @ quote @ nl @
     lit '']'' @ nl @ nl @
     lit ''Provide only the JSON array, no other text.''"

text \<open>
  \<open>s.match(/\[[\s\S]*\]/)\<close>: from the first opening bracket to the last closing bracket
  behind it, if there are both.
\<close>

definition jsonMatch :: "jsstring \<Rightarrow> jsstring option" where
  "jsonMatch s =
     (let found = rev (dropWhile (\<lambda>c. c \<noteq> 93) (rev (dropWhile (\<lambda>c. c \<noteq> 91) s)))
      in if found = [] then None else Some found)"

definition fallback_suggestions :: "jsval list" where
  "fallback_suggestions =
     [Str (lit ''Add more visual elements and data visualizations''),
      Str (lit ''Emphasize the unique value proposition more prominently''),
      Str (lit ''Include social proof and credibility indicators'')]"

definition filler :: jsval where
  "filler = Str (lit ''Enhance the slide with more professional design elements'')"

text \<open>
  The value that \<open>JSON.parse\<close> returns goes through \<open>length\<close>, \<open>push\<close> and
  \<open>slice\<close> as an array. It is one, since the text parsed begins with a bracket; on
  another value the calls would raise.
\<close>

fun as_array :: "jsval \<Rightarrow> thrown + jsval list" where
  "as_array (Arr xs) = Inr xs"
| "as_array v = Inl TypeError"

text \<open>The \<open>try\<close> around \<open>JSON.parse\<close>: the suggestions before they are counted.\<close>

definition parsed_suggestions :: "(jsstring \<Rightarrow> jsstring) \<Rightarrow> jsstring \<Rightarrow> thrown + jsval list" where
  "parsed_suggestions reader suggestionsText =
     (case jsonMatch suggestionsText of
        None \<Rightarrow> Inr []
      | Some found \<Rightarrow>
          (case JSON_parse reader found of
             None \<Rightarrow> Inr fallback_suggestions
           | Some v \<Rightarrow> as_array v))"

text \<open>
  \<open>while (suggestions.length < 3) suggestions.push(...)\<close>, then
  \<open>suggestions.slice(0, 3)\<close>.
\<close>

definition exactly_three :: "jsval list \<Rightarrow> jsval list" where
  "exactly_three xs = take 3 (xs @ replicate (3 - length xs) filler)"

text \<open>\<open>text || ''\<close>, for the text of the model's answer, if any.\<close>

definition or_empty :: "jsstring option \<Rightarrow> jsstring" where
  "or_empty t = (case t of None \<Rightarrow> [] | Some s \<Rightarrow> s)"

text \<open>\<open>POST /get-refine-options\<close>. \<open>selectedOption\<close> must be present and is not used.\<close>

definition get_refine_options ::
  "(jsstring \<Rightarrow> jsstring) \<Rightarrow> text_api \<Rightarrow> body \<Rightarrow> call list \<times> response" where
  "get_refine_options reader gemini b =
     (if \<not> truthy (prompt b) \<or> selectedOption b = Undefined then
        ([], res_json 400 [(''error'', Val (Str (lit ''Prompt and selected option are required'')))])
      else
        (case to_text (prompt b) of
           None \<Rightarrow> ([], res_json 500 [(''error'', message TypeError)])
         | Some idea \<Rightarrow>
             ([Generate_content (suggestions_prompt idea)],
              (case gemini (suggestions_prompt idea) of
                 Not_ok t \<Rightarrow>
                   res_json 500
                     [(''error'', message (Error (lit ''Refinement suggestions generation failed'')))]
               | Ok_json t \<Rightarrow>
                   (case parsed_suggestions reader (or_empty t) of
                      Inl e \<Rightarrow> res_json 500 [(''error'', message e)]
                    | Inr suggestions \<Rightarrow>
                        res_json 200
                          [(''success'', Val (Bool True)),
                           (''suggestions'', Val (Arr (exactly_three suggestions)))])))))"

section \<open>Sample inputs\<close>

text \<open>An engine whose arrays inherit no property, and an upstream with one answer.\<close>

definition no_inherited :: "jsstring \<Rightarrow> jsstring option" where
  "no_inherited k = None"

definition answering :: "'a reply \<Rightarrow> jsstring \<Rightarrow> 'a reply" where
  "answering r p = r"

text \<open>
  The engine's reading of the number literals of the samples: a small integer is written
  as it is read, and \<open>1e400\<close>, which is beyond the doubles, is read as \<open>Infinity\<close>.
\<close>

definition sample_reader :: "jsstring \<Rightarrow> jsstring" where
  "sample_reader literal = (if literal = lit ''1e400'' then lit ''Infinity'' else literal)"

definition sample_body :: body where
  "sample_body =
     \<lparr>prompt = Str (lit ''A Flying Car! Service''), selectedOption = Num (lit ''1''),
      refinementInstruction = Str (lit ''Add customer testimonials and social proof''),
      isCustom = Bool False, imageBase64 = Str (lit ''data:image/png;base64,QUJD'')\<rparr>"

text \<open>An answer of the text model with a summary, the block matched in it and the summary shown.\<close>

definition sample_text :: jsstring where
  "sample_text =
     lit ''Here is the slide.'' @ nl @ lit ''SLIDE CONCEPT:'' @ nl @
     bullet @ lit '' Headline: **SkyCab**'' @ nl @
     bullet @ lit '' Style: with data visualization focus'' @ nl @ nl @
     lit ''Layout: a dark background.''"

definition sample_block :: jsstring where
  "sample_block =
     nl @ bullet @ lit '' Headline: **SkyCab**'' @ nl @
     bullet @ lit '' Style: with data visualization focus''"

definition sample_summary :: jsstring where
  "sample_summary =
     bullet @ lit '' Headline: SkyCab'' @ nl @
     bullet @ lit '' Style: with data visualization focus''"

text \<open>Answers of the text model with two suggestions and with a malformed array.\<close>

definition two_suggestions_text :: jsstring where
  "two_suggestions_text =
     lit ''Sure: ['' @ quote @ lit ''Use charts'' @ quote @ lit '', '' @
     quote @ lit ''Add a quote'' @ quote @ lit ''] Good luck!''"

definition malformed_text :: jsstring where
  "malformed_text = lit ''Ideas: [Use charts, Add a quote] Good luck!''"

lemmas eval_json =
  parsed_suggestions_def jsonMatch_def JSON_parse_def lex_number_def lex_integer_def
  lex_fraction_def lex_exponent_def is_digit_def is_json_space_def hex_value_def
  escape_value_def Let_def quote_def or_empty_def

text \<open>A storage service with one answer, and the descriptor of a stored file.\<close>

definition storing :: "put_outcome \<Rightarrow> jsstring \<Rightarrow> jsstring \<Rightarrow> jsstring \<Rightarrow> put_outcome" where
  "storing r path filename content = r"

definition stored_descriptor :: jsval where
  "stored_descriptor =
     Obj [(lit ''data'',
           Obj [(lit ''key'', Str (lit ''k1'')), (lit ''url'', Str (lit ''/u'')),
                (lit ''bucket'', Str (lit ''slides''))])]"

lemmas eval_upload =
  sample_body_def storing_def stored_descriptor_def upload_def upload_stored_def upload_failed_def
  res_json_def objectKey_def sanitizedPrompt_def strip_hyphens_def substring0_def toLowerCase_def
  lower_unit_def is_upper_def is_slug_char_def is_lower_def is_digit_def is_word_def
  strip_data_uri_def digits.simps Let_def

lemmas eval_handlers =
  sample_body_def answering_def no_inherited_def or_prompt_def final_display_def refine_display_def
  conceptMatch_def concept_of_key_def concepts_def digits.simps res_json_def
  from_option_def data_uri_def

section \<open>The image call without an image\<close>





section \<open>The object key of an upload\<close>

function slug_words :: "jsstring \<Rightarrow> jsstring list" where
  "slug_words [] = []"
| "slug_words (c # cs) =
     (if is_slug_char c then (c # takeWhile is_slug_char cs) # slug_words (dropWhile is_slug_char cs)
      else slug_words cs)"
  by pat_completeness auto
termination
  by (relation "measure length") (auto simp: less_Suc_eq_le length_dropWhile_le)

text \<open>
  The slug in the words of the specification, read from the result: the words of small
  letters and digits of the lower-cased idea, joined by single hyphens, cut to 50.
\<close>

definition spec_slug :: "jsstring \<Rightarrow> jsstring" where
  "spec_slug idea = take 50 (join (lit ''-'') (slug_words (toLowerCase idea)))"

text \<open>The second alternative of \<open>/^-+|-+$/g\<close> alone.\<close>

definition strip_end :: "jsstring \<Rightarrow> jsstring" where
  "strip_end s = rev (dropWhile (\<lambda>c. c = 45) (rev s))"

lemma hyphen_not_slug: "\<not> is_slug_char 45"
  by (simp add: is_slug_char_def is_lower_def is_digit_def)

lemma strip_end_append:
  "strip_end (x @ y) = (if strip_end y = [] then strip_end x else x @ strip_end y)"
  by (auto simp: strip_end_def dropWhile_append)

lemma strip_end_word:
  assumes "w \<noteq> []" and "\<forall>c \<in> set w. is_slug_char c"
  shows "strip_end w = w"
proof -
  obtain xs x where w: "w = xs @ [x]"
    using assms(1) by (cases w rule: rev_cases) auto
  with assms(2) have "x \<noteq> 45"
    using hyphen_not_slug by auto
  then show ?thesis
    by (simp add: w strip_end_def)
qed

lemma replace_word: "\<forall>c \<in> set w. is_slug_char c \<Longrightarrow> replace_non_slug_runs (w @ s) = w @ replace_non_slug_runs s"
  by (induction w) auto

lemma words_nonempty: "slug_words s \<noteq> [] \<Longrightarrow> join [45] (slug_words s) \<noteq> []"
  by (induction s rule: slug_words.induct) (auto split: if_splits, (case_tac "slug_words (dropWhile is_slug_char cs)"; simp))


lemma replace_skips_run:
  "\<not> is_slug_char c \<Longrightarrow>
   replace_non_slug_runs (c # cs) = 45 # replace_non_slug_runs (dropWhile (\<lambda>d. \<not> is_slug_char d) cs)"
  by simp

lemma strip_start_replace:
  "dropWhile (\<lambda>c. c = 45) (replace_non_slug_runs s) =
   replace_non_slug_runs (dropWhile (\<lambda>d. \<not> is_slug_char d) s)"
proof (induction s rule: replace_non_slug_runs.induct)
  case 1
  show ?case by simp
next
  case (2 c cs)
  show ?case
  proof (cases "is_slug_char c")
    case True
    then have "c \<noteq> 45" using hyphen_not_slug by auto
    with True show ?thesis by simp
  next
    case False
    with 2 show ?thesis by simp
  qed
qed

lemma words_skip_run: "slug_words (dropWhile (\<lambda>d. \<not> is_slug_char d) s) = slug_words s"
  by (induction s) auto

lemma strip_end_replace:
  "strip_end (replace_non_slug_runs s) =
     (if s = [] \<or> is_slug_char (hd s) then join [45] (slug_words s)
      else if slug_words s = [] then []
      else 45 # join [45] (slug_words s))"
proof (induction s rule: slug_words.induct)
  case 1
  show ?case by (simp add: strip_end_def)
next
  case (2 c cs)
  show ?case
  proof (cases "is_slug_char c")
    case True
    define w where "w = c # takeWhile is_slug_char cs"
    define rest where "rest = dropWhile is_slug_char cs"
    have split: "c # cs = w @ rest" 
      by (simp add: w_def rest_def)
    have w: "w \<noteq> []" "\<forall>d \<in> set w. is_slug_char d"
      using True by (auto simp: w_def dest: set_takeWhileD)
    have rest: "rest = [] \<or> \<not> is_slug_char (hd rest)"
      unfolding rest_def by (metis hd_dropWhile)
    have ih: "strip_end (replace_non_slug_runs rest) =
       (if rest = [] \<or> is_slug_char (hd rest) then join [45] (slug_words rest)
        else if slug_words rest = [] then []
        else 45 # join [45] (slug_words rest))"
      using "2.IH"(1) True by (simp add: rest_def)
    have words: "slug_words (c # cs) = w # slug_words rest"
      using True by (simp add: w_def rest_def)
    have "strip_end (replace_non_slug_runs (c # cs)) =
        (if strip_end (replace_non_slug_runs rest) = [] then w
         else w @ strip_end (replace_non_slug_runs rest))"
      unfolding split by (simp add: replace_word w strip_end_append strip_end_word)
    also have "\<dots> = join [45] (w # slug_words rest)"
    proof (cases "slug_words rest")
      case Nil
      with ih rest show ?thesis by auto
    next
      case (Cons v vs)
      then have "join [45] (slug_words rest) \<noteq> []"
        using words_nonempty [of rest] by simp
      with ih rest Cons show ?thesis by auto
    qed
    finally show ?thesis using True words by simp
  next
    case False
    have ih: "strip_end (replace_non_slug_runs cs) =
       (if cs = [] \<or> is_slug_char (hd cs) then join [45] (slug_words cs)
        else if slug_words cs = [] then []
        else 45 # join [45] (slug_words cs))"
      using "2.IH"(2) False by simp
    have words: "slug_words (c # cs) = slug_words cs"
      using False by simp
    show ?thesis
    proof (cases "cs = [] \<or> is_slug_char (hd cs)")
      case True
      then have "dropWhile (\<lambda>d. \<not> is_slug_char d) cs = cs"
        by (cases cs) auto
      then have r: "replace_non_slug_runs (c # cs) = [45] @ replace_non_slug_runs cs"
        using False by simp
      show ?thesis
      proof (cases "slug_words cs")
        case Nil
        with True ih show ?thesis 
          unfolding r strip_end_append using False by (auto simp: strip_end_def)
      next
        case (Cons v vs)
        then have "join [45] (slug_words cs) \<noteq> []"
          using words_nonempty [of cs] by simp
        with True ih Cons show ?thesis
          unfolding r strip_end_append using False by auto
      qed
    next
      case False2: False
      then obtain d ds where cs: "cs = d # ds" and d: "\<not> is_slug_char d"
        by (cases cs) auto
      have "replace_non_slug_runs (c # cs) = replace_non_slug_runs cs"
        using False d by (simp add: cs)
      with ih False2 False words show ?thesis by simp
    qed
  qed
qed

lemma strip_hyphens_replace:
  "strip_hyphens (replace_non_slug_runs s) = join [45] (slug_words s)"
proof -
  let ?t = "dropWhile (\<lambda>d. \<not> is_slug_char d) s"
  have "?t = [] \<or> is_slug_char (hd ?t)"
    using hd_dropWhile [of "\<lambda>d. \<not> is_slug_char d" s] by auto
  then have "strip_end (replace_non_slug_runs ?t) = join [45] (slug_words ?t)"
    using strip_end_replace [of ?t] by auto
  then show ?thesis
    by (simp add: strip_hyphens_def strip_start_replace words_skip_run flip: strip_end_def)
qed

lemma sanitizedPrompt_spec: "sanitizedPrompt idea = spec_slug idea"
  by (simp add: sanitizedPrompt_def spec_slug_def substring0_def strip_hyphens_replace lit_def)

text \<open>
  C5. For an idea and an image that are strings, the upload goes to the object key
  \<open>slides/<slug>/<timestamp>.png\<close>, which the response gives back as \<open>fileName\<close>
  when the storage service accepts the file. The slug is the lower-cased idea with each
  run of other characters than \<open>a-z0-9\<close> made one hyphen, without hyphens at the ends,
  cut to 50: the words of the idea joined by hyphens. The idea
  \<open>A Flying Car! Service\<close> has the slug \<open>a-flying-car-service\<close>.
\<close>

theorem upload_object_key:
  assumes "imageBase64 b = Str img" and "img \<noteq> []" and "prompt b = Str idea"
  shows "objectKey idea now = lit ''slides/'' @ spec_slug idea @ lit ''/'' @ digits now @ lit ''.png'' \<and>
         fst (upload storage now b) =
           [Put_object (lit ''/api/storage/buckets/slides/objects/'' @ objectKey idea now)
              (digits now @ lit ''.png'') (strip_data_uri img)] \<and>
         (\<forall>d r. storage (lit ''/api/storage/buckets/slides/objects/'' @ objectKey idea now)
                 (digits now @ lit ''.png'') (strip_data_uri img) = Put_ok d \<and>
               upload_stored (objectKey idea now) d = Inr r \<longrightarrow>
               snd (upload storage now b) = r \<and>
               (\<exists>fs. r = Response 200 fs \<and> map_of fs ''fileName'' = Some (Val (Str (objectKey idea now))))) \<and>
         sanitizedPrompt (lit ''A Flying Car! Service'') = lit ''a-flying-car-service''"
proof -
  have key: "objectKey idea now = lit ''slides/'' @ spec_slug idea @ lit ''/'' @ digits now @ lit ''.png''"
    by (simp add: objectKey_def sanitizedPrompt_spec)
  have calls: "fst (upload storage now b) =
      [Put_object (lit ''/api/storage/buckets/slides/objects/'' @ objectKey idea now)
         (digits now @ lit ''.png'') (strip_data_uri img)]"
    using assms by (simp add: upload_def Let_def split: put_outcome.splits)
  have stored: "\<And>d r. upload_stored (objectKey idea now) d = Inr r \<Longrightarrow>
      \<exists>fs. r = Response 200 fs \<and> map_of fs ''fileName'' = Some (Val (Str (objectKey idea now)))"
    by (auto simp: upload_stored_def Let_def res_json_def split: sum.splits)
  have response: "\<And>d r. storage (lit ''/api/storage/buckets/slides/objects/'' @ objectKey idea now)
        (digits now @ lit ''.png'') (strip_data_uri img) = Put_ok d \<Longrightarrow>
      upload_stored (objectKey idea now) d = Inr r \<Longrightarrow> snd (upload storage now b) = r"
    using assms by (simp add: upload_def Let_def)
  have example: "sanitizedPrompt (lit ''A Flying Car! Service'') = lit ''a-flying-car-service''"
    by (simp add: sanitizedPrompt_def strip_hyphens_def substring0_def toLowerCase_def lower_unit_def
        is_upper_def is_slug_char_def is_lower_def is_digit_def lit_def)
  from key calls stored response example show ?thesis by blast
qed

theorem upload_object_key_witness:
  "imageBase64 sample_body = Str (lit ''data:image/png;base64,QUJD'') \<and>
   lit ''data:image/png;base64,QUJD'' \<noteq> [] \<and>
   prompt sample_body = Str (lit ''A Flying Car! Service'') \<and>
   spec_slug (lit ''A Flying Car! Service'') = lit ''a-flying-car-service'' \<and>
   upload (storing (Put_ok stored_descriptor)) 1700000000123 sample_body =
     ([Put_object (lit ''/api/storage/buckets/slides/objects/slides/a-flying-car-service/1700000000123.png'')
         (lit ''1700000000123.png'') (lit ''QUJD'')],
      Response 200
        [(''success'', Val (Bool True)), (''key'', Val (Str (lit ''k1''))),
         (''fileName'', Val (Str (lit ''slides/a-flying-car-service/1700000000123.png''))),
         (''fileUrl'', Val (Str (lit ''/u''))), (''bucket'', Val (Str (lit ''slides'')))])"
proof -
  have h: "imageBase64 sample_body = Str (lit ''data:image/png;base64,QUJD'')"
    "lit ''data:image/png;base64,QUJD'' \<noteq> []"
    "prompt sample_body = Str (lit ''A Flying Car! Service'')"
    by (simp_all add: sample_body_def lit_def)
  have key: "objectKey (lit ''A Flying Car! Service'') 1700000000123 =
      lit ''slides/a-flying-car-service/1700000000123.png''"
    by (simp add: eval_upload lit_def)
  have run: "upload (storing (Put_ok stored_descriptor)) 1700000000123 sample_body =
     ([Put_object (lit ''/api/storage/buckets/slides/objects/slides/a-flying-car-service/1700000000123.png'')
         (lit ''1700000000123.png'') (lit ''QUJD'')],
      Response 200
        [(''success'', Val (Bool True)), (''key'', Val (Str (lit ''k1''))),
         (''fileName'', Val (Str (lit ''slides/a-flying-car-service/1700000000123.png''))),
         (''fileUrl'', Val (Str (lit ''/u''))), (''bucket'', Val (Str (lit ''slides'')))])"
    by (simp add: eval_upload lit_def)
  have "objectKey (lit ''A Flying Car! Service'') 1700000000123 =
      lit ''slides/'' @ spec_slug (lit ''A Flying Car! Service'') @ lit ''/'' @ digits 1700000000123 @ lit ''.png''"
    using upload_object_key [OF h, of 1700000000123 "storing (Put_ok stored_descriptor)"] by blast
  then have "spec_slug (lit ''A Flying Car! Service'') = lit ''a-flying-car-service''"
    unfolding key by (simp add: lit_def digits.simps)
  with h run show ?thesis by blast
qed

section \<open>Missing fields\<close>

text \<open>
  C3. A request without a field that its endpoint checks is answered with status 400
  before any call leaves the server: \<open>prompt\<close> for the options, \<open>prompt\<close> and
  \<open>selectedOption\<close> for the final slide and the suggestions, these and
  \<open>refinementInstruction\<close> for a refinement, \<open>imageBase64\<close> for an upload. An
  upload with an image and without its \<open>prompt\<close> is not answered with 400: reading
  the prompt raises, and the answer is status 500, \<open>Upload to InsForge failed\<close>, with
  no call to the storage service.
\<close>

theorem missing_fields:
  "generate_options imagen settled (b\<lparr>prompt := Undefined\<rparr>) =
     ([], Response 400 [(''error'', Val (Str (lit ''Prompt is required'')))]) \<and>
   generate_final inherited gemini imagen (b\<lparr>prompt := Undefined\<rparr>) =
     ([], Response 400 [(''error'', Val (Str (lit ''Prompt and selected option are required'')))]) \<and>
   generate_final inherited gemini imagen (b\<lparr>selectedOption := Undefined\<rparr>) =
     ([], Response 400 [(''error'', Val (Str (lit ''Prompt and selected option are required'')))]) \<and>
   get_refine_options reader gemini (b\<lparr>prompt := Undefined\<rparr>) =
     ([], Response 400 [(''error'', Val (Str (lit ''Prompt and selected option are required'')))]) \<and>
   get_refine_options reader gemini (b\<lparr>selectedOption := Undefined\<rparr>) =
     ([], Response 400 [(''error'', Val (Str (lit ''Prompt and selected option are required'')))]) \<and>
   refine_slide inherited gemini imagen (b\<lparr>prompt := Undefined\<rparr>) =
     ([], Response 400
        [(''error'', Val (Str (lit ''Prompt, selected option, and refinement instruction are required'')))]) \<and>
   refine_slide inherited gemini imagen (b\<lparr>selectedOption := Undefined\<rparr>) =
     ([], Response 400
        [(''error'', Val (Str (lit ''Prompt, selected option, and refinement instruction are required'')))]) \<and>
   refine_slide inherited gemini imagen (b\<lparr>refinementInstruction := Undefined\<rparr>) =
     ([], Response 400
        [(''error'', Val (Str (lit ''Prompt, selected option, and refinement instruction are required'')))]) \<and>
   upload storage now (b\<lparr>imageBase64 := Undefined\<rparr>) =
     ([], Response 400 [(''error'', Val (Str (lit ''Image data is required'')))]) \<and>
   upload storage now (b\<lparr>imageBase64 := Str (c # img), prompt := Undefined\<rparr>) =
     ([], Response 500
        [(''error'', Val (Str (lit ''Upload to InsForge failed''))), (''details'', Engine_message)])"
proof -
  have options: "generate_options imagen settled (b\<lparr>prompt := Undefined\<rparr>) =
     ([], Response 400 [(''error'', Val (Str (lit ''Prompt is required'')))])"
    by (simp add: generate_options_def res_json_def)
  have final: "\<And>b'. \<not> truthy (prompt b') \<or> selectedOption b' = Undefined \<Longrightarrow>
     generate_final inherited gemini imagen b' =
     ([], Response 400 [(''error'', Val (Str (lit ''Prompt and selected option are required'')))])"
    by (auto simp: generate_final_def res_json_def)
  have suggestions: "\<And>b'. \<not> truthy (prompt b') \<or> selectedOption b' = Undefined \<Longrightarrow>
     get_refine_options reader gemini b' =
     ([], Response 400 [(''error'', Val (Str (lit ''Prompt and selected option are required'')))])"
    by (auto simp: get_refine_options_def res_json_def)
  have refine: "\<And>b'. \<not> truthy (prompt b') \<or> selectedOption b' = Undefined \<or>
       \<not> truthy (refinementInstruction b') \<Longrightarrow>
     refine_slide inherited gemini imagen b' =
     ([], Response 400
        [(''error'', Val (Str (lit ''Prompt, selected option, and refinement instruction are required'')))])"
    by (auto simp: refine_slide_def res_json_def)
  have image: "upload storage now (b\<lparr>imageBase64 := Undefined\<rparr>) =
     ([], Response 400 [(''error'', Val (Str (lit ''Image data is required'')))])"
    by (simp add: upload_def res_json_def)
  have idea: "upload storage now (b\<lparr>imageBase64 := Str (c # img), prompt := Undefined\<rparr>) =
     ([], Response 500
        [(''error'', Val (Str (lit ''Upload to InsForge failed''))), (''details'', Engine_message)])"
    by (simp add: upload_def upload_failed_def res_json_def)
  show ?thesis
    by (simp add: options final suggestions refine image idea)
qed

theorem missing_fields_witness:
  "generate_options (answering (Ok_json None)) [] (sample_body\<lparr>prompt := Undefined\<rparr>) =
     ([], Response 400 [(''error'', Val (Str (lit ''Prompt is required'')))]) \<and>
   refine_slide no_inherited (answering (Ok_json None)) (answering (Ok_json None))
       (sample_body\<lparr>refinementInstruction := Undefined\<rparr>) =
     ([], Response 400
        [(''error'', Val (Str (lit ''Prompt, selected option, and refinement instruction are required'')))]) \<and>
   upload (storing (Put_ok stored_descriptor)) 1700000000123
       (sample_body\<lparr>imageBase64 := Str (81 # lit ''UJD''), prompt := Undefined\<rparr>) =
     ([], Response 500
        [(''error'', Val (Str (lit ''Upload to InsForge failed''))), (''details'', Engine_message)])"
  using missing_fields [where imagen = "answering (Ok_json None)" and settled = "[]"
      and b = sample_body and inherited = no_inherited and gemini = "answering (Ok_json None)"
      and storage = "storing (Put_ok stored_descriptor)" and now = 1700000000123 and c = 81
      and img = "lit ''UJD''"]
  by blast

section \<open>The order of the options\<close>

lemma promise_all_Inr:
  assumes "promise_all settled ps = Inr xs"
  shows "xs = map projr ps \<and> (\<forall>i < length ps. \<not> isl (ps ! i))"
proof -
  from assms have none: "find (\<lambda>i. isl (ps ! i)) (filter (\<lambda>i. i < length ps) (settled @ [0..<length ps])) = None"
    and xs: "xs = map projr ps"
    by (auto simp: promise_all_def split: option.splits)
  from none have "\<forall>i < length ps. \<not> isl (ps ! i)"
    by (auto simp: find_None_iff)
  with xs show ?thesis by simp
qed

lemma find_Some_holds: "find P xs = Some x \<Longrightarrow> P x \<and> x \<in> set xs"
  by (induction xs) (auto split: if_splits)

lemma promise_all_Inl:
  assumes "promise_all settled ps = Inl e"
  shows "\<exists>i < length ps. ps ! i = Inl e"
proof -
  from assms obtain i where
    f: "find (\<lambda>i. isl (ps ! i)) (filter (\<lambda>i. i < length ps) (settled @ [0..<length ps])) = Some i"
    and e: "e = projl (ps ! i)"
    by (auto simp: promise_all_def split: option.splits)
  from f have "isl (ps ! i)" and "i < length ps"
    using find_Some_holds [OF f] by auto
  with e show ?thesis by (cases "ps ! i") auto
qed

lemma promise_all_fails:
  assumes "i < length ps" and "isl (ps ! i)"
  shows "isl (promise_all settled ps)"
proof -
  from assms have "i \<in> set (filter (\<lambda>i. i < length ps) (settled @ [0..<length ps]))"
    by simp
  with assms(2) have "find (\<lambda>i. isl (ps ! i)) (filter (\<lambda>i. i < length ps) (settled @ [0..<length ps])) \<noteq> None"
    unfolding find_None_iff by blast
  then show ?thesis
    by (auto simp: promise_all_def split: option.splits)
qed

text \<open>The three promises of \<open>generate_options\<close>, one after the other.\<close>

definition option_promises :: "image_api \<Rightarrow> jsstring \<Rightarrow> (thrown + jsval) list" where
  "option_promises imagen idea =
     [option_result 0 (concepts ! 0) (imagen (option_prompt idea (concepts ! 0))),
      option_result 1 (concepts ! 1) (imagen (option_prompt idea (concepts ! 1))),
      option_result 2 (concepts ! 2) (imagen (option_prompt idea (concepts ! 2)))]"

lemma generate_options_promises:
  assumes "truthy (prompt b)" and "to_text (prompt b) = Some idea"
  shows "generate_options imagen settled b =
     (map (\<lambda>c. Predict (option_prompt idea c)) concepts,
      case promise_all settled (option_promises imagen idea) of
        Inl e \<Rightarrow> res_json 500 [(''error'', message e)]
      | Inr options \<Rightarrow>
          res_json 200 [(''success'', Val (Bool True)), (''options'', Val (Arr options))])"
  using assms
  by (simp add: generate_options_def option_promises_def concepts_def Let_def numeral_2_eq_2)

text \<open>
  The fields of an option that show its image, read from the answer to its call: the
  bytes of the first prediction as \<open>imageBase64\<close> and, behind the prefix of a data
  URI, as \<open>image\<close>. Without a first prediction, or without bytes in it,
  \<open>imageBase64\<close> is absent and \<open>image\<close> ends in \<open>undefined\<close>.
\<close>

fun image_fields :: "jsstring option list option \<Rightarrow> (jsstring \<times> jsval) list" where
  "image_fields (Some (Some bytes # others)) =
     [(lit ''imageBase64'', Str bytes),
      (lit ''image'', Str (lit ''data:image/png;base64,'' @ bytes))]"
| "image_fields predictions =
     [(lit ''image'', Str (lit ''data:image/png;base64,undefined''))]"

lemma option_result_Ok:
  "option_result index concept (Ok_json p) =
     Inr (Obj ([(lit ''id'', Num (digits (index + 1))), (lit ''concept'', Str concept)] @
               image_fields p))"
  by (cases p rule: image_fields.cases)
     (simp_all add: json_obj_def from_option_def data_uri_def lit_def)

lemma written_option:
  assumes "finite_number n"
  shows "written (Obj ([(k, Num n), (k', Str c)] @ image_fields p)) =
     Obj ([(k, Num n), (k', Str c)] @ image_fields p)"
  using assms by (cases p rule: image_fields.cases) simp_all

lemma finite_small:
  "finite_number (lit ''1'')" "finite_number (lit ''2'')" "finite_number (lit ''3'')"
  by (simp_all add: finite_number_def lit_def)

lemma small_digits:
  "digits (Suc 0) = lit ''1''" "digits (Suc (Suc 0)) = lit ''2''"
  "digits (Suc (Suc (Suc 0))) = lit ''3''" "digits 2 = lit ''2''" "digits 3 = lit ''3''"
  by (simp_all add: digits.simps lit_def)

lemma option_promises_values:
  assumes "\<forall>i < 3. \<not> isl (option_promises imagen idea ! i)"
  shows "\<exists>p0 p1 p2.
    imagen (option_prompt idea (concepts ! 0)) = Ok_json p0 \<and>
    imagen (option_prompt idea (concepts ! 1)) = Ok_json p1 \<and>
    imagen (option_prompt idea (concepts ! 2)) = Ok_json p2 \<and>
    map projr (option_promises imagen idea) =
      [Obj ([(lit ''id'', Num (lit ''1'')), (lit ''concept'', Str (concepts ! 0))] @ image_fields p0),
       Obj ([(lit ''id'', Num (lit ''2'')), (lit ''concept'', Str (concepts ! 1))] @ image_fields p1),
       Obj ([(lit ''id'', Num (lit ''3'')), (lit ''concept'', Str (concepts ! 2))] @ image_fields p2)]"
proof -
  from assms have
    "\<not> isl (option_result 0 (concepts ! 0) (imagen (option_prompt idea (concepts ! 0))))"
    "\<not> isl (option_result 1 (concepts ! 1) (imagen (option_prompt idea (concepts ! 1))))"
    "\<not> isl (option_result 2 (concepts ! 2) (imagen (option_prompt idea (concepts ! 2))))"
    using assms [rule_format, of 0] assms [rule_format, of 1] assms [rule_format, of 2]
    by (simp_all add: option_promises_def)
  then obtain p0 p1 p2 where
    r0: "imagen (option_prompt idea (concepts ! 0)) = Ok_json p0"
    and r1: "imagen (option_prompt idea (concepts ! 1)) = Ok_json p1"
    and r2: "imagen (option_prompt idea (concepts ! 2)) = Ok_json p2"
    by (cases "imagen (option_prompt idea (concepts ! 0))";
        cases "imagen (option_prompt idea (concepts ! 1))";
        cases "imagen (option_prompt idea (concepts ! 2))") simp_all
  have "map projr (option_promises imagen idea) =
      [Obj ([(lit ''id'', Num (lit ''1'')), (lit ''concept'', Str (concepts ! 0))] @ image_fields p0),
       Obj ([(lit ''id'', Num (lit ''2'')), (lit ''concept'', Str (concepts ! 1))] @ image_fields p1),
       Obj ([(lit ''id'', Num (lit ''3'')), (lit ''concept'', Str (concepts ! 2))] @ image_fields p2)]"
    unfolding option_promises_def r0 r1 r2 option_result_Ok
    by (simp add: small_digits)
  with r0 r1 r2 show ?thesis by simp
qed

text \<open>An upstream that answers the call for each style in its own way.\<close>

definition sample_imagen :: image_api where
  "sample_imagen p =
     (if p = option_prompt (lit ''A Flying Car! Service'') (lit ''minimalist with bold typography'')
      then Ok_json (Some [Some (lit ''QUJD'')])
      else if p = option_prompt (lit ''A Flying Car! Service'') (lit ''with data visualization focus'')
      then Ok_json (Some [None])
      else Ok_json None)"

lemma option_prompt_style: "(option_prompt idea c = option_prompt idea c') = (c = c')"
  by (simp add: option_prompt_def)

text \<open>
  C6. A response of status 200 of \<open>generate_options\<close> holds exactly three options, in
  the order of the styles (minimalist with bold typography, with data visualization
  focus, with icon-heavy design), whatever the order \<open>settled\<close> in which the three
  calls are answered. The three calls are made in that order, each with the image prompt
  of its style. The option at place \<open>i\<close> has the id \<open>i + 1\<close>, then the name of the
  style at place \<open>i\<close> as its concept, then the image fields read from the answer to
  the call for that style.
\<close>

theorem options_in_style_order:
  assumes "snd (generate_options imagen settled b) = Response 200 fs"
  shows "\<exists>idea p0 p1 p2.
     to_text (prompt b) = Some idea \<and>
     (\<forall>c. option_prompt idea c =
        lit ''Simple rough sketch of a business pitch slide for: '' @ idea @
        lit ''. Style: '' @ c @
        lit ''. Wireframe style, basic layout, minimal detail, grayscale or simple colors, placeholder text blocks. Think of this as a preliminary concept sketch.'') \<and>
     fst (generate_options imagen settled b) =
       [Predict (option_prompt idea (lit ''minimalist with bold typography'')),
        Predict (option_prompt idea (lit ''with data visualization focus'')),
        Predict (option_prompt idea (lit ''with icon-heavy design''))] \<and>
     imagen (option_prompt idea (lit ''minimalist with bold typography'')) = Ok_json p0 \<and>
     imagen (option_prompt idea (lit ''with data visualization focus'')) = Ok_json p1 \<and>
     imagen (option_prompt idea (lit ''with icon-heavy design'')) = Ok_json p2 \<and>
     fs =
       [(''success'', Val (Bool True)),
        (''options'', Val (Arr
           [Obj ([(lit ''id'', Num (lit ''1'')),
                  (lit ''concept'', Str (lit ''minimalist with bold typography''))] @
                 image_fields p0),
            Obj ([(lit ''id'', Num (lit ''2'')),
                  (lit ''concept'', Str (lit ''with data visualization focus''))] @
                 image_fields p1),
            Obj ([(lit ''id'', Num (lit ''3'')),
                  (lit ''concept'', Str (lit ''with icon-heavy design''))] @
                 image_fields p2)]))]"
proof -
  from assms have valid: "truthy (prompt b)"
    by (auto simp: generate_options_def res_json_def split: if_splits)
  with assms obtain idea where idea: "to_text (prompt b) = Some idea"
    by (cases "to_text (prompt b)") (auto simp: generate_options_def res_json_def)
  note run = generate_options_promises [OF valid idea, of imagen settled]
  from assms obtain options where
    all: "promise_all settled (option_promises imagen idea) = Inr options"
    and fs: "fs = [(''success'', Val (Bool True)), (''options'', Val (written (Arr options)))]"
    unfolding run by (auto simp: res_json_def split: sum.splits)
  let ?ps = "option_promises imagen idea"
  from promise_all_Inr [OF all] have options: "options = map projr ?ps"
    and ok: "\<forall>i < length ?ps. \<not> isl (?ps ! i)" by simp_all
  have len: "length ?ps = 3" by (simp add: option_promises_def)
  from ok len obtain p0 p1 p2 where
    r0: "imagen (option_prompt idea (concepts ! 0)) = Ok_json p0"
    and r1: "imagen (option_prompt idea (concepts ! 1)) = Ok_json p1"
    and r2: "imagen (option_prompt idea (concepts ! 2)) = Ok_json p2"
    and entries: "map projr ?ps =
      [Obj ([(lit ''id'', Num (lit ''1'')), (lit ''concept'', Str (concepts ! 0))] @ image_fields p0),
       Obj ([(lit ''id'', Num (lit ''2'')), (lit ''concept'', Str (concepts ! 1))] @ image_fields p1),
       Obj ([(lit ''id'', Num (lit ''3'')), (lit ''concept'', Str (concepts ! 2))] @ image_fields p2)]"
    using option_promises_values [of imagen idea] by auto
  have calls: "fst (generate_options imagen settled b) =
      [Predict (option_prompt idea (concepts ! 0)), Predict (option_prompt idea (concepts ! 1)),
       Predict (option_prompt idea (concepts ! 2))]"
    unfolding run by (simp add: concepts_def)
  have written: "written (Arr options) = Arr options"
    unfolding options entries
    using written_option [OF finite_small(1)] written_option [OF finite_small(2)]
      written_option [OF finite_small(3)]
    by simp
  have shape: "\<forall>c. option_prompt idea c =
        lit ''Simple rough sketch of a business pitch slide for: '' @ idea @
        lit ''. Style: '' @ c @
        lit ''. Wireframe style, basic layout, minimal detail, grayscale or simple colors, placeholder text blocks. Think of this as a preliminary concept sketch.''"
    by (simp add: option_prompt_def)
  from idea calls r0 r1 r2 fs entries options written shape show ?thesis
    by (simp add: concepts_def)
qed

theorem options_in_style_order_witness:
  "snd (generate_options sample_imagen [2, 0, 1] sample_body) =
     Response 200
       [(''success'', Val (Bool True)),
        (''options'', Val (Arr
           [Obj [(lit ''id'', Num (lit ''1'')),
                 (lit ''concept'', Str (lit ''minimalist with bold typography'')),
                 (lit ''imageBase64'', Str (lit ''QUJD'')),
                 (lit ''image'', Str (lit ''data:image/png;base64,QUJD''))],
            Obj [(lit ''id'', Num (lit ''2'')),
                 (lit ''concept'', Str (lit ''with data visualization focus'')),
                 (lit ''image'', Str (lit ''data:image/png;base64,undefined''))],
            Obj [(lit ''id'', Num (lit ''3'')),
                 (lit ''concept'', Str (lit ''with icon-heavy design'')),
                 (lit ''image'', Str (lit ''data:image/png;base64,undefined''))]]))] \<and>
   fst (generate_options sample_imagen [2, 0, 1] sample_body) =
     [Predict (lit ''Simple rough sketch of a business pitch slide for: '' @
        lit ''A Flying Car! Service'' @ lit ''. Style: '' @ lit ''minimalist with bold typography'' @
        lit ''. Wireframe style, basic layout, minimal detail, grayscale or simple colors, placeholder text blocks. Think of this as a preliminary concept sketch.''),
      Predict (lit ''Simple rough sketch of a business pitch slide for: '' @
        lit ''A Flying Car! Service'' @ lit ''. Style: '' @ lit ''with data visualization focus'' @
        lit ''. Wireframe style, basic layout, minimal detail, grayscale or simple colors, placeholder text blocks. Think of this as a preliminary concept sketch.''),
      Predict (lit ''Simple rough sketch of a business pitch slide for: '' @
        lit ''A Flying Car! Service'' @ lit ''. Style: '' @ lit ''with icon-heavy design'' @
        lit ''. Wireframe style, basic layout, minimal detail, grayscale or simple colors, placeholder text blocks. Think of this as a preliminary concept sketch.'')]"
proof -
  have styles: "lit ''with data visualization focus'' \<noteq> lit ''minimalist with bold typography''"
    "lit ''with icon-heavy design'' \<noteq> lit ''minimalist with bold typography''"
    "lit ''with icon-heavy design'' \<noteq> lit ''with data visualization focus''"
    by (simp_all add: lit_def)
  have uri: "lit ''data:image/png;base64,'' @ lit ''QUJD'' = lit ''data:image/png;base64,QUJD''"
    "lit ''data:image/png;base64,'' @ lit ''undefined'' = lit ''data:image/png;base64,undefined''"
    by (simp_all add: lit_def)
  have answers:
    "sample_imagen (option_prompt (lit ''A Flying Car! Service'') (lit ''minimalist with bold typography'')) =
       Ok_json (Some [Some (lit ''QUJD'')])"
    "sample_imagen (option_prompt (lit ''A Flying Car! Service'') (lit ''with data visualization focus'')) =
       Ok_json (Some [None])"
    "sample_imagen (option_prompt (lit ''A Flying Car! Service'') (lit ''with icon-heavy design'')) =
       Ok_json None"
    using styles by (simp_all add: sample_imagen_def option_prompt_style)
  have run: "snd (generate_options sample_imagen [2, 0, 1] sample_body) =
     Response 200
       [(''success'', Val (Bool True)),
        (''options'', Val (Arr
           [Obj [(lit ''id'', Num (lit ''1'')),
                 (lit ''concept'', Str (lit ''minimalist with bold typography'')),
                 (lit ''imageBase64'', Str (lit ''QUJD'')),
                 (lit ''image'', Str (lit ''data:image/png;base64,QUJD''))],
            Obj [(lit ''id'', Num (lit ''2'')),
                 (lit ''concept'', Str (lit ''with data visualization focus'')),
                 (lit ''image'', Str (lit ''data:image/png;base64,undefined''))],
            Obj [(lit ''id'', Num (lit ''3'')),
                 (lit ''concept'', Str (lit ''with icon-heavy design'')),
                 (lit ''image'', Str (lit ''data:image/png;base64,undefined''))]]))]"
    by (simp add: generate_options_def sample_body_def promise_all_def concepts_def answers
        json_obj_def from_option_def data_uri_def small_digits finite_small uri res_json_def
        Let_def)
  from options_in_style_order [OF run] obtain idea where
    idea: "to_text (prompt sample_body) = Some idea"
    and shape: "\<forall>c. option_prompt idea c =
        lit ''Simple rough sketch of a business pitch slide for: '' @ idea @
        lit ''. Style: '' @ c @
        lit ''. Wireframe style, basic layout, minimal detail, grayscale or simple colors, placeholder text blocks. Think of this as a preliminary concept sketch.''"
    and calls: "fst (generate_options sample_imagen [2, 0, 1] sample_body) =
       [Predict (option_prompt idea (lit ''minimalist with bold typography'')),
        Predict (option_prompt idea (lit ''with data visualization focus'')),
        Predict (option_prompt idea (lit ''with icon-heavy design''))]"
    by blast
  from idea have "idea = lit ''A Flying Car! Service''"
    by (simp add: sample_body_def)
  with calls shape run show ?thesis
    by simp
qed

section \<open>Upstream failures\<close>

lemma final_text_failure:
  assumes "Generate_content p \<in> set (fst (generate_final inherited gemini imagen b))"
    and "gemini p = Not_ok t"
  shows "generate_final inherited gemini imagen b =
    ([Generate_content p], Response 500 [(''error'', Val (Str (lit ''Text generation failed'')))])"
  using assms unfolding generate_final_def Let_def
  by (auto simp: res_json_def split: if_splits option.splits sum.splits reply.splits)

lemma final_image_failure:
  assumes "Predict p \<in> set (fst (generate_final inherited gemini imagen b))"
    and "imagen p = Not_ok t"
  shows "\<exists>q. generate_final inherited gemini imagen b =
    ([Generate_content q, Predict p],
     Response 500 [(''error'', Val (Str (lit ''Image generation failed''))), (''details'', Val (Str t))])"
  using assms unfolding generate_final_def Let_def
  by (auto simp: res_json_def split: if_splits option.splits sum.splits reply.splits)

lemma refine_text_failure:
  assumes "Generate_content p \<in> set (fst (refine_slide inherited gemini imagen b))"
    and "gemini p = Not_ok t"
  shows "refine_slide inherited gemini imagen b =
    ([Generate_content p],
     Response 500 [(''error'', Val (Str (lit ''Refined description generation failed'')))])"
  using assms unfolding refine_slide_def Let_def
  by (auto simp: res_json_def split: if_splits option.splits sum.splits reply.splits)

lemma refine_image_failure:
  assumes "Predict p \<in> set (fst (refine_slide inherited gemini imagen b))"
    and "imagen p = Not_ok t"
  shows "\<exists>q. refine_slide inherited gemini imagen b =
    ([Generate_content q, Predict p],
     Response 500 [(''error'', Val (Str (lit ''Image generation failed''))), (''details'', Val (Str t))])"
  using assms unfolding refine_slide_def Let_def
  by (auto simp: res_json_def split: if_splits option.splits sum.splits reply.splits)

lemma suggestions_failure:
  assumes "Generate_content p \<in> set (fst (get_refine_options reader gemini b))"
    and "gemini p = Not_ok t"
  shows "get_refine_options reader gemini b =
    ([Generate_content p],
     Response 500 [(''error'', Val (Str (lit ''Refinement suggestions generation failed'')))])"
  using assms unfolding get_refine_options_def Let_def
  by (auto simp: res_json_def split: if_splits option.splits sum.splits reply.splits)

lemma upload_failure:
  assumes "Put_object path filename content \<in> set (fst (upload storage now b))"
    and "storage path filename content = Put_error d m"
  shows "upload storage now b =
    ([Put_object path filename content],
     Response 500
       [(''error'', Val (Str (lit ''Upload to InsForge failed''))),
        (''details'', Val (written (if truthy d then d else Str m)))])"
  using assms unfolding upload_def Let_def
  by (auto simp: res_json_def upload_failed_def split: if_splits sum.splits put_outcome.splits)


lemma option_promise_failed:
  assumes "k < 3" and "option_promises imagen idea ! k = Inl e"
  shows "\<exists>t. imagen (option_prompt idea (concepts ! k)) = Not_ok t \<and>
    e = Error (lit ''Option '' @ digits (k + 1) @ lit '' generation failed'')"
proof -
  from assms(1) consider "k = 0" | "k = 1" | "k = 2" by linarith
  then show ?thesis
  proof cases
    case 1
    with assms(2) show ?thesis
      by (cases "imagen (option_prompt idea (concepts ! 0))") (auto simp: option_promises_def)
  next
    case 2
    with assms(2) show ?thesis
      by (cases "imagen (option_prompt idea (concepts ! 1))") (auto simp: option_promises_def)
  next
    case 3
    with assms(2) show ?thesis
      by (cases "imagen (option_prompt idea (concepts ! 2))") (auto simp: option_promises_def)
  qed
qed

lemma options_failure:
  assumes "Predict p \<in> set (fst (generate_options imagen settled b))"
    and "imagen p = Not_ok t"
  shows "\<exists>idea k t'. k < 3 \<and> imagen (option_prompt idea (concepts ! k)) = Not_ok t' \<and>
    generate_options imagen settled b =
      ([Predict (option_prompt idea (concepts ! 0)), Predict (option_prompt idea (concepts ! 1)),
        Predict (option_prompt idea (concepts ! 2))],
       Response 500
         [(''error'', Val (Str (lit ''Option '' @ digits (k + 1) @ lit '' generation failed'')))])"
proof -
  from assms(1) have valid: "truthy (prompt b)"
    by (auto simp: generate_options_def split: if_splits)
  with assms(1) obtain idea where idea: "to_text (prompt b) = Some idea"
    by (cases "to_text (prompt b)") (auto simp: generate_options_def)
  note run = generate_options_promises [OF valid idea, of imagen settled]
  let ?ps = "option_promises imagen idea"
  have len: "length ?ps = 3" by (simp add: option_promises_def)
  have three: "length concepts = 3" by (simp add: concepts_def)
  from assms(1) obtain c where "c \<in> set concepts" and "p = option_prompt idea c"
    unfolding run by auto
  then obtain i where i: "i < 3" and p: "p = option_prompt idea (concepts ! i)"
    using three by (auto simp: in_set_conv_nth)
  from i consider "i = 0" | "i = 1" | "i = 2" by linarith
  then have "isl (?ps ! i)"
    using assms(2) p by cases (auto simp: option_promises_def)
  with i len have "isl (promise_all settled ?ps)"
    using promise_all_fails [of i ?ps settled] by simp
  then obtain e where e: "promise_all settled ?ps = Inl e"
    by (cases "promise_all settled ?ps") auto
  from promise_all_Inl [OF e] len obtain k where k: "k < 3" and "?ps ! k = Inl e"
    by auto
  from option_promise_failed [OF this] obtain t' where
    "imagen (option_prompt idea (concepts ! k)) = Not_ok t'"
    and "e = Error (lit ''Option '' @ digits (k + 1) @ lit '' generation failed'')"
    by blast
  with k e show ?thesis
    unfolding run by (auto simp: res_json_def concepts_def)
qed


text \<open>
  C7, as the code has it. When a call that an operation has made is answered with a
  status that is no success, the operation makes no further call and repeats none, and
  its response has status 500 and holds the error message of the operation and no data
  field. The body of the answer is carried, as \<open>details\<close>, for three calls only: the
  image calls of the two slide handlers (\<open>Image generation failed\<close>) and the upload
  (\<open>Upload to InsForge failed\<close>, with the data of the answer, or the message of the
  error when there is none). For the others the response is the message alone, whatever
  the body of the answer: \<open>Text generation failed\<close> and
  \<open>Refined description generation failed\<close> for the text calls of the two slide
  handlers, \<open>Refinement suggestions generation failed\<close>, and for the three options
  \<open>Option k generation failed\<close> of an option \<open>k\<close> whose call was so answered, with
  no option in the response.
\<close>

theorem upstream_failures:
  "(Generate_content p \<in> set (fst (generate_final inherited gemini imagen b)) \<and> gemini p = Not_ok t \<longrightarrow>
      generate_final inherited gemini imagen b =
        ([Generate_content p], Response 500 [(''error'', Val (Str (lit ''Text generation failed'')))])) \<and>
   (Predict p \<in> set (fst (generate_final inherited gemini imagen b)) \<and> imagen p = Not_ok t \<longrightarrow>
      (\<exists>q. generate_final inherited gemini imagen b =
        ([Generate_content q, Predict p],
         Response 500
           [(''error'', Val (Str (lit ''Image generation failed''))), (''details'', Val (Str t))]))) \<and>
   (Generate_content p \<in> set (fst (refine_slide inherited gemini imagen b)) \<and> gemini p = Not_ok t \<longrightarrow>
      refine_slide inherited gemini imagen b =
        ([Generate_content p],
         Response 500 [(''error'', Val (Str (lit ''Refined description generation failed'')))])) \<and>
   (Predict p \<in> set (fst (refine_slide inherited gemini imagen b)) \<and> imagen p = Not_ok t \<longrightarrow>
      (\<exists>q. refine_slide inherited gemini imagen b =
        ([Generate_content q, Predict p],
         Response 500
           [(''error'', Val (Str (lit ''Image generation failed''))), (''details'', Val (Str t))]))) \<and>
   (Generate_content p \<in> set (fst (get_refine_options reader gemini b)) \<and> gemini p = Not_ok t \<longrightarrow>
      get_refine_options reader gemini b =
        ([Generate_content p],
         Response 500 [(''error'', Val (Str (lit ''Refinement suggestions generation failed'')))])) \<and>
   (Put_object path filename content \<in> set (fst (upload storage now b)) \<and>
      storage path filename content = Put_error d m \<longrightarrow>
      upload storage now b =
        ([Put_object path filename content],
         Response 500
           [(''error'', Val (Str (lit ''Upload to InsForge failed''))),
            (''details'', Val (written (if truthy d then d else Str m)))])) \<and>
   (Predict p \<in> set (fst (generate_options imagen settled b)) \<and> imagen p = Not_ok t \<longrightarrow>
      (\<exists>idea k t'. k < 3 \<and> imagen (option_prompt idea (concepts ! k)) = Not_ok t' \<and>
        generate_options imagen settled b =
          ([Predict (option_prompt idea (concepts ! 0)), Predict (option_prompt idea (concepts ! 1)),
            Predict (option_prompt idea (concepts ! 2))],
           Response 500
             [(''error'', Val (Str (lit ''Option '' @ digits (k + 1) @ lit '' generation failed'')))])))"
  using final_text_failure [of p inherited gemini imagen b t]
    final_image_failure [of p inherited gemini imagen b t]
    refine_text_failure [of p inherited gemini imagen b t]
    refine_image_failure [of p inherited gemini imagen b t]
    suggestions_failure [of p reader gemini b t]
    upload_failure [of path filename content storage now b d m]
    options_failure [of p imagen settled b t]
  by (intro conjI impI) blast+

theorem upstream_failures_counterexample:
  "snd (generate_final no_inherited (answering (Not_ok (lit ''quota exceeded'')))
         (answering (Ok_json None)) sample_body) =
     Response 500 [(''error'', Val (Str (lit ''Text generation failed'')))]"
  by (simp add: generate_final_def eval_handlers lit_def [of "''0''"] lit_def [of "''1''"])

theorem upstream_failures_witness:
  "generate_final no_inherited (answering (Not_ok (lit ''busy''))) (answering (Ok_json None)) sample_body =
     ([Generate_content (final_text_prompt (lit ''A Flying Car! Service'') (lit ''with data visualization focus''))], Response 500 [(''error'', Val (Str (lit ''Text generation failed'')))]) \<and>
   generate_final no_inherited (answering (Ok_json None)) (answering (Not_ok (lit ''busy''))) sample_body =
     ([Generate_content (final_text_prompt (lit ''A Flying Car! Service'') (lit ''with data visualization focus'')), Predict (final_image_prompt (lit ''A Flying Car! Service''))], Response 500 [(''error'', Val (Str (lit ''Image generation failed''))), (''details'', Val (Str (lit ''busy'')))]) \<and>
   refine_slide no_inherited (answering (Not_ok (lit ''busy''))) (answering (Ok_json None)) sample_body =
     ([Generate_content (refine_text_prompt (lit ''A Flying Car! Service'') (lit ''with data visualization focus'') (lit ''Add customer testimonials and social proof''))], Response 500 [(''error'', Val (Str (lit ''Refined description generation failed'')))]) \<and>
   refine_slide no_inherited (answering (Ok_json None)) (answering (Not_ok (lit ''busy''))) sample_body =
     ([Generate_content (refine_text_prompt (lit ''A Flying Car! Service'') (lit ''with data visualization focus'') (lit ''Add customer testimonials and social proof'')), Predict (refine_image_prompt (lit ''A Flying Car! Service''))], Response 500 [(''error'', Val (Str (lit ''Image generation failed''))), (''details'', Val (Str (lit ''busy'')))]) \<and>
   get_refine_options sample_reader (answering (Not_ok (lit ''busy''))) sample_body =
     ([Generate_content (suggestions_prompt (lit ''A Flying Car! Service''))], Response 500 [(''error'', Val (Str (lit ''Refinement suggestions generation failed'')))]) \<and>
   upload (storing (Put_error Undefined (lit ''Network Error''))) 1700000000123 sample_body =
     ([Put_object (lit ''/api/storage/buckets/slides/objects/'' @ objectKey (lit ''A Flying Car! Service'') 1700000000123) (digits 1700000000123 @ lit ''.png'') (lit ''QUJD'')], Response 500 [(''error'', Val (Str (lit ''Upload to InsForge failed''))), (''details'', Val (Str (lit ''Network Error'')))]) \<and>
   generate_options (answering (Not_ok (lit ''busy''))) [2, 0, 1] sample_body =
     ([Predict (option_prompt (lit ''A Flying Car! Service'') (concepts ! 0)), Predict (option_prompt (lit ''A Flying Car! Service'') (concepts ! 1)), Predict (option_prompt (lit ''A Flying Car! Service'') (concepts ! 2))], Response 500 [(''error'', Val (Str (lit ''Option 3 generation failed'')))])"
proof -
  have m1: "Generate_content (final_text_prompt (lit ''A Flying Car! Service'') (lit ''with data visualization focus'')) \<in> set (fst (generate_final no_inherited (answering (Not_ok (lit ''busy''))) (answering (Ok_json None)) sample_body))"
    and m2: "Predict (final_image_prompt (lit ''A Flying Car! Service'')) \<in> set (fst (generate_final no_inherited (answering (Ok_json None)) (answering (Not_ok (lit ''busy''))) sample_body))"
    and m3: "Generate_content (refine_text_prompt (lit ''A Flying Car! Service'') (lit ''with data visualization focus'') (lit ''Add customer testimonials and social proof'')) \<in> set (fst (refine_slide no_inherited (answering (Not_ok (lit ''busy''))) (answering (Ok_json None)) sample_body))"
    and m4: "Predict (refine_image_prompt (lit ''A Flying Car! Service'')) \<in> set (fst (refine_slide no_inherited (answering (Ok_json None)) (answering (Not_ok (lit ''busy''))) sample_body))"
    by (simp_all add: generate_final_def refine_slide_def eval_handlers lit_def)
  have m5: "Generate_content (suggestions_prompt (lit ''A Flying Car! Service'')) \<in> set (fst (get_refine_options sample_reader (answering (Not_ok (lit ''busy''))) sample_body))"
    by (simp add: get_refine_options_def sample_body_def answering_def)
  have m6: "Put_object (lit ''/api/storage/buckets/slides/objects/'' @ objectKey (lit ''A Flying Car! Service'') 1700000000123) (digits 1700000000123 @ lit ''.png'') (lit ''QUJD'') \<in> set (fst (upload (storing (Put_error Undefined (lit ''Network Error''))) 1700000000123 sample_body))"
    by (simp add: upload_def sample_body_def storing_def strip_data_uri_def is_word_def is_lower_def
        is_upper_def is_digit_def lit_def Let_def)
  have m7: "Predict (option_prompt (lit ''A Flying Car! Service'') (concepts ! 2)) \<in> set (fst (generate_options (answering (Not_ok (lit ''busy''))) [2, 0, 1] sample_body))"
    by (simp add: generate_options_def sample_body_def concepts_def Let_def)
  have w1: "generate_final no_inherited (answering (Not_ok (lit ''busy''))) (answering (Ok_json None)) sample_body = ([Generate_content (final_text_prompt (lit ''A Flying Car! Service'') (lit ''with data visualization focus''))], Response 500 [(''error'', Val (Str (lit ''Text generation failed'')))])"
    using m1 upstream_failures [where p = "final_text_prompt (lit ''A Flying Car! Service'') (lit ''with data visualization focus'')" and gemini = "answering (Not_ok (lit ''busy''))"
        and imagen = "answering (Ok_json None)" and inherited = no_inherited and b = sample_body
        and t = "lit ''busy''"]
    by (simp add: answering_def)
  have w2: "generate_final no_inherited (answering (Ok_json None)) (answering (Not_ok (lit ''busy''))) sample_body =
     ([Generate_content (final_text_prompt (lit ''A Flying Car! Service'') (lit ''with data visualization focus'')), Predict (final_image_prompt (lit ''A Flying Car! Service''))], Response 500 [(''error'', Val (Str (lit ''Image generation failed''))), (''details'', Val (Str (lit ''busy'')))])"
  proof -
    have calls: "fst (generate_final no_inherited (answering (Ok_json None)) (answering (Not_ok (lit ''busy''))) sample_body) = [Generate_content (final_text_prompt (lit ''A Flying Car! Service'') (lit ''with data visualization focus'')), Predict (final_image_prompt (lit ''A Flying Car! Service''))]"
      by (simp add: generate_final_def refine_slide_def eval_handlers lit_def)
    from m2 upstream_failures [where p = "final_image_prompt (lit ''A Flying Car! Service'')" and imagen = "answering (Not_ok (lit ''busy''))"
        and gemini = "answering (Ok_json None)" and inherited = no_inherited and b = sample_body
        and t = "lit ''busy''"]
    have "\<exists>q. generate_final no_inherited (answering (Ok_json None)) (answering (Not_ok (lit ''busy''))) sample_body =
        ([Generate_content q, Predict (final_image_prompt (lit ''A Flying Car! Service''))], Response 500 [(''error'', Val (Str (lit ''Image generation failed''))), (''details'', Val (Str (lit ''busy'')))])"
      by (simp add: answering_def)
    then obtain q where q: "generate_final no_inherited (answering (Ok_json None)) (answering (Not_ok (lit ''busy''))) sample_body =
        ([Generate_content q, Predict (final_image_prompt (lit ''A Flying Car! Service''))], Response 500 [(''error'', Val (Str (lit ''Image generation failed''))), (''details'', Val (Str (lit ''busy'')))])" ..
    with calls have "q = final_text_prompt (lit ''A Flying Car! Service'') (lit ''with data visualization focus'')" by simp
    with q show ?thesis by simp
  qed
  have w3: "refine_slide no_inherited (answering (Not_ok (lit ''busy''))) (answering (Ok_json None)) sample_body = ([Generate_content (refine_text_prompt (lit ''A Flying Car! Service'') (lit ''with data visualization focus'') (lit ''Add customer testimonials and social proof''))], Response 500 [(''error'', Val (Str (lit ''Refined description generation failed'')))])"
    using m3 upstream_failures [where p = "refine_text_prompt (lit ''A Flying Car! Service'') (lit ''with data visualization focus'') (lit ''Add customer testimonials and social proof'')" and gemini = "answering (Not_ok (lit ''busy''))"
        and imagen = "answering (Ok_json None)" and inherited = no_inherited and b = sample_body
        and t = "lit ''busy''"]
    by (simp add: answering_def)
  have w4: "refine_slide no_inherited (answering (Ok_json None)) (answering (Not_ok (lit ''busy''))) sample_body =
     ([Generate_content (refine_text_prompt (lit ''A Flying Car! Service'') (lit ''with data visualization focus'') (lit ''Add customer testimonials and social proof'')), Predict (refine_image_prompt (lit ''A Flying Car! Service''))], Response 500 [(''error'', Val (Str (lit ''Image generation failed''))), (''details'', Val (Str (lit ''busy'')))])"
  proof -
    have calls: "fst (refine_slide no_inherited (answering (Ok_json None)) (answering (Not_ok (lit ''busy''))) sample_body) = [Generate_content (refine_text_prompt (lit ''A Flying Car! Service'') (lit ''with data visualization focus'') (lit ''Add customer testimonials and social proof'')), Predict (refine_image_prompt (lit ''A Flying Car! Service''))]"
      by (simp add: generate_final_def refine_slide_def eval_handlers lit_def)
    from m4 upstream_failures [where p = "refine_image_prompt (lit ''A Flying Car! Service'')" and imagen = "answering (Not_ok (lit ''busy''))"
        and gemini = "answering (Ok_json None)" and inherited = no_inherited and b = sample_body
        and t = "lit ''busy''"]
    have "\<exists>q. refine_slide no_inherited (answering (Ok_json None)) (answering (Not_ok (lit ''busy''))) sample_body =
        ([Generate_content q, Predict (refine_image_prompt (lit ''A Flying Car! Service''))], Response 500 [(''error'', Val (Str (lit ''Image generation failed''))), (''details'', Val (Str (lit ''busy'')))])"
      by (simp add: answering_def)
    then obtain q where q: "refine_slide no_inherited (answering (Ok_json None)) (answering (Not_ok (lit ''busy''))) sample_body =
        ([Generate_content q, Predict (refine_image_prompt (lit ''A Flying Car! Service''))], Response 500 [(''error'', Val (Str (lit ''Image generation failed''))), (''details'', Val (Str (lit ''busy'')))])" ..
    with calls have "q = refine_text_prompt (lit ''A Flying Car! Service'') (lit ''with data visualization focus'') (lit ''Add customer testimonials and social proof'')" by simp
    with q show ?thesis by simp
  qed
  have w5: "get_refine_options sample_reader (answering (Not_ok (lit ''busy''))) sample_body = ([Generate_content (suggestions_prompt (lit ''A Flying Car! Service''))], Response 500 [(''error'', Val (Str (lit ''Refinement suggestions generation failed'')))])"
    using m5 upstream_failures [where p = "suggestions_prompt (lit ''A Flying Car! Service'')" and gemini = "answering (Not_ok (lit ''busy''))"
        and b = sample_body and t = "lit ''busy''" and reader = sample_reader]
    by (simp add: answering_def)
  have w6: "upload (storing (Put_error Undefined (lit ''Network Error''))) 1700000000123 sample_body = ([Put_object (lit ''/api/storage/buckets/slides/objects/'' @ objectKey (lit ''A Flying Car! Service'') 1700000000123) (digits 1700000000123 @ lit ''.png'') (lit ''QUJD'')], Response 500 [(''error'', Val (Str (lit ''Upload to InsForge failed''))), (''details'', Val (Str (lit ''Network Error'')))])"
    using m6 upstream_failures [where path = "lit ''/api/storage/buckets/slides/objects/'' @ objectKey (lit ''A Flying Car! Service'') 1700000000123" and filename = "digits 1700000000123 @ lit ''.png''" and content = "lit ''QUJD''"
        and storage = "storing (Put_error Undefined (lit ''Network Error''))" and now = 1700000000123
        and b = sample_body and d = Undefined and m = "lit ''Network Error''"]
    by (simp add: storing_def)
  have w7: "generate_options (answering (Not_ok (lit ''busy''))) [2, 0, 1] sample_body = ([Predict (option_prompt (lit ''A Flying Car! Service'') (concepts ! 0)), Predict (option_prompt (lit ''A Flying Car! Service'') (concepts ! 1)), Predict (option_prompt (lit ''A Flying Car! Service'') (concepts ! 2))], Response 500 [(''error'', Val (Str (lit ''Option 3 generation failed'')))])"
    by (simp add: generate_options_def sample_body_def answering_def promise_all_def concepts_def
        res_json_def Let_def digits.simps lit_def)
  from w1 w2 w3 w4 w5 w6 w7 show ?thesis by blast
qed

section \<open>Refinements are marked\<close>

lemma slide_response_200:
  assumes "slide_response description extra r = Response 200 fs"
  shows "\<exists>x xs. r = Ok_json (Some (x # xs)) \<and>
    fs = map (\<lambda>(k, v). (k, written_field v)) (filter (\<lambda>(k, v). v \<noteq> Val Undefined)
      ([(''success'', Val (Bool True)),
        (''image'', Val (Str (data_uri x))),
        (''imageBase64'', Val (from_option x)),
        (''description'', Val (Str description))] @ extra))"
  using assms
  by (cases "(description, extra, r)" rule: slide_response.cases) (auto simp: res_json_def)

lemma refine_slide_200:
  assumes "snd (refine_slide inherited gemini imagen b) = Response 200 fs"
  shows "\<exists>description r. slide_response description [(''isRefinement'', Val (Bool True))] r =
    Response 200 fs"
  using assms unfolding refine_slide_def Let_def
  by (auto simp: res_json_def split: if_splits option.splits sum.splits reply.splits)

lemma refine_text_prompt_shape:
  "refine_text_prompt idea concept instruction =
     (lit ''You are a professional business presentation designer. Create a REFINED business pitch slide.'' @ nl @ nl @
      lit ''Original idea: '' @ quote @ idea @ quote @ nl @
      lit ''Design style: '' @ concept @ nl) @
     lit ''REFINEMENT: '' @ instruction @
     (nl @ nl @
      lit ''First, provide a concise slide concept summary (for display to user) in this exact format:'' @ nl @
      lit ''SLIDE CONCEPT:'' @ nl @
      bullet @ lit '' Headline: [short, catchy title]'' @ nl @
      bullet @ lit '' Style: '' @ concept @ nl) @
     bullet @ lit '' Refinement: '' @ take 30 instruction @ lit ''...'' @ nl @
     bullet @ lit '' Key Points: [3 short bullet points max 6 words each]'' @
     (nl @ nl @
      lit ''Then, describe the visual layout for image generation incorporating the refinement. Be specific about typography, colors, layout, and visual elements for creating an improved investor-ready pitch slide.'')"
  by (simp add: refine_text_prompt_def substring0_def)

lemma refine_slide_first_call:
  assumes "fst (refine_slide inherited gemini imagen b) \<noteq> []"
  shows "\<exists>idea concept instruction.
    to_text (prompt b) = Some idea \<and>
    selectedConcept inherited (selectedOption b) = Some concept \<and>
    refinementInstruction b = Str instruction \<and>
    hd (fst (refine_slide inherited gemini imagen b)) =
      Generate_content (refine_text_prompt idea concept instruction)"
  using assms unfolding refine_slide_def Let_def
  by (cases "refinementInstruction b")
     (auto split: if_splits option.splits sum.splits reply.splits)

text \<open>
  C8. Whenever \<open>refine_slide\<close> makes its text call, the instruction is a string and
  the prompt holds it in full behind \<open>REFINEMENT: \<close>, and asks for a summary line
  \<open>Refinement:\<close> with the first 30 characters of the instruction, followed by
  \<open>...\<close>, before the line of the key points. Every response of status 200 holds
  \<open>isRefinement\<close>, and it is \<open>true\<close>.
\<close>

theorem refinement_marked:
  "(fst (refine_slide inherited gemini imagen b) \<noteq> [] \<longrightarrow>
      (\<exists>instruction before between behind.
         refinementInstruction b = Str instruction \<and>
         hd (fst (refine_slide inherited gemini imagen b)) =
           Generate_content
             (before @ lit ''REFINEMENT: '' @ instruction @ between @
              bullet @ lit '' Refinement: '' @ take 30 instruction @ lit ''...'' @ nl @
              bullet @ lit '' Key Points: [3 short bullet points max 6 words each]'' @ behind))) \<and>
   (snd (refine_slide inherited gemini imagen b) = Response 200 fs \<longrightarrow>
      map_of fs ''isRefinement'' = Some (Val (Bool True)))"
proof (intro conjI impI)
  assume "fst (refine_slide inherited gemini imagen b) \<noteq> []"
  from refine_slide_first_call [OF this] obtain idea concept instruction where
    i: "refinementInstruction b = Str instruction"
    and c: "hd (fst (refine_slide inherited gemini imagen b)) =
      Generate_content (refine_text_prompt idea concept instruction)"
    by blast
  show "\<exists>instruction before between behind.
         refinementInstruction b = Str instruction \<and>
         hd (fst (refine_slide inherited gemini imagen b)) =
           Generate_content
             (before @ lit ''REFINEMENT: '' @ instruction @ between @
              bullet @ lit '' Refinement: '' @ take 30 instruction @ lit ''...'' @ nl @
              bullet @ lit '' Key Points: [3 short bullet points max 6 words each]'' @ behind)"
    using i c unfolding refine_text_prompt_shape [of idea concept instruction] by blast
next
  assume "snd (refine_slide inherited gemini imagen b) = Response 200 fs"
  from refine_slide_200 [OF this] obtain description r where
    "slide_response description [(''isRefinement'', Val (Bool True))] r = Response 200 fs"
    by blast
  from slide_response_200 [OF this] show "map_of fs ''isRefinement'' = Some (Val (Bool True))"
    by auto
qed


lemma sample_refined:
  "refine_slide no_inherited (answering (Ok_json (Some sample_text)))
      (answering (Ok_json (Some [Some (lit ''QUJD'')]))) sample_body =
     ([Generate_content
         (refine_text_prompt (lit ''A Flying Car! Service'') (lit ''with data visualization focus'')
            (lit ''Add customer testimonials and social proof'')),
       Predict (refine_image_prompt sample_text)],
      Response 200
        [(''success'', Val (Bool True)),
         (''image'', Val (Str (data_uri (Some (lit ''QUJD''))))),
         (''imageBase64'', Val (Str (lit ''QUJD''))),
         (''description'', Val (Str sample_summary)),
         (''isRefinement'', Val (Bool True))])"
proof -
  have nonempty: "sample_text \<noteq> []"
    by (simp add: sample_text_def)
  have matched: "conceptMatch sample_text = Some sample_block"
    by (simp add: conceptMatch_def sample_text_def sample_block_def nl_def bullet_def lit_def)
  have trimmed: "remove_bold (trim sample_block) = sample_summary"
    by (simp add: sample_block_def sample_summary_def trim_def is_space_def nl_def bullet_def lit_def)
  show ?thesis
    by (simp add: refine_slide_def sample_body_def answering_def no_inherited_def or_prompt_def
        refine_display_def concept_of_key_def concepts_def digits.simps res_json_def
        from_option_def nonempty matched trimmed lit_def [of "''0''"] lit_def [of "''1''"])
qed


theorem refinement_marked_witness:
  "fst (refine_slide no_inherited (answering (Ok_json (Some sample_text)))
      (answering (Ok_json (Some [Some (lit ''QUJD'')]))) sample_body) \<noteq> [] \<and>
   snd (refine_slide no_inherited (answering (Ok_json (Some sample_text)))
      (answering (Ok_json (Some [Some (lit ''QUJD'')]))) sample_body) =
     Response 200
        [(''success'', Val (Bool True)),
         (''image'', Val (Str (data_uri (Some (lit ''QUJD''))))),
         (''imageBase64'', Val (Str (lit ''QUJD''))),
         (''description'', Val (Str sample_summary)),
         (''isRefinement'', Val (Bool True))] \<and>
   (\<exists>instruction before between behind.
      refinementInstruction sample_body = Str instruction \<and>
      hd (fst (refine_slide no_inherited (answering (Ok_json (Some sample_text)))
      (answering (Ok_json (Some [Some (lit ''QUJD'')]))) sample_body)) =
        Generate_content
          (before @ lit ''REFINEMENT: '' @ instruction @ between @
           bullet @ lit '' Refinement: '' @ take 30 instruction @ lit ''...'' @ nl @
           bullet @ lit '' Key Points: [3 short bullet points max 6 words each]'' @ behind)) \<and>
   map_of
        [(''success'', Val (Bool True)),
         (''image'', Val (Str (data_uri (Some (lit ''QUJD''))))),
         (''imageBase64'', Val (Str (lit ''QUJD''))),
         (''description'', Val (Str sample_summary)),
         (''isRefinement'', Val (Bool True))] ''isRefinement'' = Some (Val (Bool True))"
proof -
  have calls: "fst (refine_slide no_inherited (answering (Ok_json (Some sample_text)))
      (answering (Ok_json (Some [Some (lit ''QUJD'')]))) sample_body) \<noteq> []"
    and response: "snd (refine_slide no_inherited (answering (Ok_json (Some sample_text)))
      (answering (Ok_json (Some [Some (lit ''QUJD'')]))) sample_body) =
     Response 200
        [(''success'', Val (Bool True)),
         (''image'', Val (Str (data_uri (Some (lit ''QUJD''))))),
         (''imageBase64'', Val (Str (lit ''QUJD''))),
         (''description'', Val (Str sample_summary)),
         (''isRefinement'', Val (Bool True))]"
    by (simp_all add: sample_refined)
  from refinement_marked [of no_inherited "answering (Ok_json (Some sample_text))"
      "answering (Ok_json (Some [Some (lit ''QUJD'')]))" sample_body
      "[(''success'', Val (Bool True)),
         (''image'', Val (Str (data_uri (Some (lit ''QUJD''))))),
         (''imageBase64'', Val (Str (lit ''QUJD''))),
         (''description'', Val (Str sample_summary)),
         (''isRefinement'', Val (Bool True))]"] calls response
  show ?thesis by blast
qed

section \<open>Three suggestions\<close>

text \<open>The frames of an array, and the states in which the outermost value is an array.\<close>

fun array_frame :: "frame \<Rightarrow> bool" where
  "array_frame Array_open = True"
| "array_frame (Array_item vs) = True"
| "array_frame (Array_comma vs) = True"
| "array_frame f = False"

definition in_array :: "pstate \<Rightarrow> bool" where
  "in_array p =
     (case p of
        Parsing st \<Rightarrow> st \<noteq> [] \<and> array_frame (last st)
      | Finished v \<Rightarrow> (\<exists>xs. v = Arr xs))"

lemma give_in_array:
  assumes "st \<noteq> []" and "array_frame (last st)" and "give v st = Some p"
  shows "in_array p"
  using assms
  by (cases "(v, st)" rule: give.cases) (auto simp: in_array_def split: if_splits)

lemma step_in_array:
  assumes "st \<noteq> []" and "array_frame (last st)" and "step reader t st = Some p"
  shows "in_array p"
proof (cases "tl st = []")
  case True
  with assms(1) obtain f where st: "st = [f]" by (cases st) auto
  with assms show ?thesis
    by (cases f; cases t) (auto simp: in_array_def split: if_splits)
next
  case False
  with assms(1) obtain f g rest where st: "st = f # g # rest"
    by (cases st; cases "tl st") auto
  have deeper: "\<And>v. give v (g # rest) = Some p \<Longrightarrow> in_array p"
    using give_in_array [of "g # rest" _ p] assms(2) st by simp
  from assms(2,3) st show ?thesis
    by (cases f; cases t) (auto intro: deeper split: if_splits, auto simp: in_array_def)
qed

lemma run_in_array:
  assumes "in_array p" and "run reader ts p = Some (Finished v)"
  shows "\<exists>xs. v = Arr xs"
  using assms
proof (induction ts arbitrary: p)
  case Nil
  then show ?case by (simp add: in_array_def)
next
  case (Cons t ts)
  show ?case
  proof (cases p)
    case (Finished w)
    with Cons.prems show ?thesis by simp
  next
    case (Parsing st)
    with Cons.prems obtain p' where s: "step reader t st = Some p'" and r: "run reader ts p' = Some (Finished v)"
      by (auto split: option.splits)
    from Cons.prems(1) Parsing have "st \<noteq> []" "array_frame (last st)"
      by (simp_all add: in_array_def)
    from step_in_array [OF this s] r show ?thesis
      by (rule Cons.IH)
  qed
qed

lemma JSON_parse_bracket:
  assumes "JSON_parse reader (91 # r) = Some v"
  shows "\<exists>xs. v = Arr xs"
proof -
  from assms obtain ts where l: "lex (91 # r) = Some ts"
    and p: "run reader ts (Parsing []) = Some (Finished v)"
    by (auto simp: JSON_parse_def split: option.splits pstate.splits)
  from l obtain ts' where ts: "ts = LBracket # ts'"
    by (auto simp: is_json_space_def)
  with p have "run reader ts' (Parsing [Array_open]) = Some (Finished v)"
    by simp
  moreover have "in_array (Parsing [Array_open])"
    by (simp add: in_array_def)
  ultimately show ?thesis
    using run_in_array by blast
qed


lemma jsonMatch_span:
  assumes "jsonMatch s = Some found"
  shows "\<exists>before behind. s = before @ found @ behind \<and> 91 \<notin> set before \<and> 93 \<notin> set behind \<and>
    found \<noteq> [] \<and> hd found = 91 \<and> last found = 93"
proof -
  define x where "x = dropWhile (\<lambda>c. c \<noteq> 91) s"
  define before where "before = takeWhile (\<lambda>c. c \<noteq> 91) s"
  define behind where "behind = rev (takeWhile (\<lambda>c. c \<noteq> 93) (rev x))"
  from assms have found: "found = rev (dropWhile (\<lambda>c. c \<noteq> 93) (rev x))" and ne: "found \<noteq> []"
    by (auto simp: jsonMatch_def x_def Let_def split: if_splits)
  have s: "s = before @ x"
    by (simp add: before_def x_def)
  have x: "x = found @ behind"
    unfolding found behind_def
    by (metis rev_append rev_rev_ident takeWhile_dropWhile_id)
  have b1: "91 \<notin> set before"
    unfolding before_def by (auto dest: set_takeWhileD)
  have b2: "93 \<notin> set behind"
    unfolding behind_def by (auto dest: set_takeWhileD)
  from ne x have "x \<noteq> []" by auto
  then have "hd x = 91"
    unfolding x_def using hd_dropWhile [of "\<lambda>c. c \<noteq> 91" s] by auto
  with x ne have h: "hd found = 91" by (cases found) auto
  from ne have "dropWhile (\<lambda>c. c \<noteq> 93) (rev x) \<noteq> []"
    by (simp add: found)
  then have "hd (dropWhile (\<lambda>c. c \<noteq> 93) (rev x)) = 93"
    using hd_dropWhile [of "\<lambda>c. c \<noteq> 93" "rev x"] by auto
  then have l: "last found = 93"
    using ne by (simp add: found last_rev)
  from s x b1 b2 ne h l show ?thesis by auto
qed

lemma jsonMatch_none:
  assumes "jsonMatch s = None"
  shows "\<not> (\<exists>before between behind. s = before @ [91] @ between @ [93] @ behind)"
proof
  assume "\<exists>before between behind. s = before @ [91] @ between @ [93] @ behind"
  then obtain before between behind where s: "s = before @ [91] @ between @ [93] @ behind"
    by blast
  define y where "y = dropWhile (\<lambda>c. c \<noteq> 91) before"
  have "dropWhile (\<lambda>c. c \<noteq> 91) s = y @ [91] @ between @ [93] @ behind \<or>
        dropWhile (\<lambda>c. c \<noteq> 91) s = [91] @ between @ [93] @ behind"
    unfolding s y_def by (auto simp: dropWhile_append)
  then have "93 \<in> set (dropWhile (\<lambda>c. c \<noteq> 91) s)"
    by auto
  then have "dropWhile (\<lambda>c. c \<noteq> 93) (rev (dropWhile (\<lambda>c. c \<noteq> 91) s)) \<noteq> []"
    unfolding dropWhile_eq_Nil_conv set_rev by blast
  moreover from assms have "dropWhile (\<lambda>c. c \<noteq> 93) (rev (dropWhile (\<lambda>c. c \<noteq> 91) s)) = []"
    unfolding jsonMatch_def Let_def by (simp split: if_splits)
  ultimately show False by blast
qed

lemma parsed_suggestions_cases:
  "(jsonMatch s = None \<and> parsed_suggestions reader s = Inr []) \<or>
   (\<exists>found. jsonMatch s = Some found \<and> JSON_parse reader found = None \<and>
      parsed_suggestions reader s = Inr fallback_suggestions) \<or>
   (\<exists>found xs. jsonMatch s = Some found \<and> JSON_parse reader found = Some (Arr xs) \<and>
      parsed_suggestions reader s = Inr xs)"
proof (cases "jsonMatch s")
  case None
  then show ?thesis by (simp add: parsed_suggestions_def)
next
  case (Some found)
  from jsonMatch_span [OF Some] obtain r where found: "found = 91 # r"
    by (cases found) auto
  show ?thesis
  proof (cases "JSON_parse reader found")
    case None
    with Some show ?thesis by (simp add: parsed_suggestions_def)
  next
    case (Some v)
    with JSON_parse_bracket [of reader r v] found obtain xs where "v = Arr xs" by auto
    with Some \<open>jsonMatch s = Some found\<close> show ?thesis
      by (simp add: parsed_suggestions_def)
  qed
qed

lemma exactly_three_entries:
  "length (exactly_three xs) = 3 \<and>
   (\<forall>i < 3. exactly_three xs ! i = (if i < length xs then xs ! i else filler))"
  by (auto simp: exactly_three_def nth_append)

lemma suggestions_answered:
  assumes "fst (get_refine_options reader gemini b) = [Generate_content p]"
    and "gemini p = Ok_json t"
    and "parsed_suggestions reader (or_empty t) = Inr parsed"
  shows "snd (get_refine_options reader gemini b) =
    Response 200
      [(''success'', Val (Bool True)),
       (''suggestions'', Val (written (Arr (exactly_three parsed))))]"
  using assms unfolding get_refine_options_def
  by (auto simp: res_json_def split: if_splits option.splits)

lemma written_Str: "(written x = Str s) = (x = Str s)"
  by (cases x) auto

lemma written_filler: "written filler = filler" "filler \<noteq> Undefined"
  by (simp_all add: filler_def)

lemma exactly_three_none: "exactly_three [] = [filler, filler, filler]"
  by (simp add: exactly_three_def numeral_3_eq_3)

text \<open>
  C1, as the code has it. When the text call of \<open>get_refine_options\<close> is answered with
  a success, the response has status 200 and \<open>suggestions\<close> holds exactly three
  entries, whatever the text: one for each of the first three values parsed from it, in
  their order, and the filler \<open>Enhance the slide with more professional design elements\<close>
  in the places behind them. The kind of a value is not checked: the entry of a string is
  that string, and the entry of a value that is no string is no string. So the entries
  are strings when the values parsed are strings.
\<close>

theorem three_suggestions:
  assumes "fst (get_refine_options reader gemini b) = [Generate_content p]"
    and "gemini p = Ok_json t"
  shows "\<exists>parsed entries.
    parsed_suggestions reader (or_empty t) = Inr parsed \<and>
    snd (get_refine_options reader gemini b) =
      Response 200 [(''success'', Val (Bool True)), (''suggestions'', Val (Arr entries))] \<and>
    length entries = 3 \<and>
    (\<forall>i < 3.
       if i < length parsed then (\<forall>s. (entries ! i = Str s) = (parsed ! i = Str s))
       else entries ! i = Str (lit ''Enhance the slide with more professional design elements'')) \<and>
    ((\<forall>x \<in> set parsed. \<exists>s. x = Str s) \<longrightarrow> (\<forall>x \<in> set entries. \<exists>s. x = Str s))"
proof -
  obtain parsed where parsed: "parsed_suggestions reader (or_empty t) = Inr parsed"
    using parsed_suggestions_cases [of "or_empty t" reader] by blast
  define entry where "entry = (\<lambda>x. if x = Undefined then Null else written x)"
  define entries where "entries = map entry (exactly_three parsed)"
  have response: "snd (get_refine_options reader gemini b) =
      Response 200 [(''success'', Val (Bool True)), (''suggestions'', Val (Arr entries))]"
    using suggestions_answered [OF assms parsed] by (simp add: entries_def entry_def)
  have len: "length entries = 3"
    using exactly_three_entries [of parsed] by (simp add: entries_def)
  have kind: "(entry x = Str s) = (x = Str s)" for x s
    by (simp add: entry_def written_Str)
  have each: "\<forall>i < 3.
       if i < length parsed then (\<forall>s. (entries ! i = Str s) = (parsed ! i = Str s))
       else entries ! i = Str (lit ''Enhance the slide with more professional design elements'')"
  proof (intro allI impI)
    fix i :: nat
    assume i: "i < 3"
    with exactly_three_entries [of parsed]
    have at: "entries ! i = entry (if i < length parsed then parsed ! i else filler)"
      by (simp add: entries_def)
    show "if i < length parsed then (\<forall>s. (entries ! i = Str s) = (parsed ! i = Str s))
       else entries ! i = Str (lit ''Enhance the slide with more professional design elements'')"
      unfolding at by (simp add: kind) (simp add: entry_def filler_def)
  qed
  have strings: "\<forall>x \<in> set entries. \<exists>s. x = Str s"
    if "\<forall>x \<in> set parsed. \<exists>s. x = Str s"
  proof
    fix x
    assume "x \<in> set entries"
    then obtain y where y: "y \<in> set (exactly_three parsed)" and x: "x = entry y"
      by (auto simp: entries_def)
    from y have "y \<in> set parsed \<or> y = filler"
      by (auto simp: exactly_three_def dest!: in_set_takeD)
    with that obtain s where "y = Str s"
      by (auto simp: filler_def)
    with x show "\<exists>s. x = Str s"
      by (simp add: entry_def)
  qed
  from parsed response len each strings show ?thesis
    by blast
qed

theorem three_suggestions_counterexample:
  "snd (get_refine_options sample_reader (answering (Ok_json (Some (lit ''[1, 2, 3]''))))
         sample_body) =
     Response 200
       [(''success'', Val (Bool True)),
        (''suggestions'', Val (Arr [Num (lit ''1''), Num (lit ''2''), Num (lit ''3'')]))]"
  by (simp add: get_refine_options_def sample_body_def answering_def res_json_def exactly_three_def
      sample_reader_def finite_number_def eval_json lit_def)

theorem three_suggestions_witness:
  "fst (get_refine_options sample_reader (answering (Ok_json (Some two_suggestions_text)))
         sample_body) =
     [Generate_content (suggestions_prompt (lit ''A Flying Car! Service''))] \<and>
   answering (Ok_json (Some two_suggestions_text)) (suggestions_prompt (lit ''A Flying Car! Service'')) =
     Ok_json (Some two_suggestions_text) \<and>
   parsed_suggestions sample_reader two_suggestions_text =
     Inr [Str (lit ''Use charts''), Str (lit ''Add a quote'')] \<and>
   (\<exists>entries.
      snd (get_refine_options sample_reader (answering (Ok_json (Some two_suggestions_text)))
             sample_body) =
        Response 200 [(''success'', Val (Bool True)), (''suggestions'', Val (Arr entries))] \<and>
      length entries = 3 \<and> entries ! 0 = Str (lit ''Use charts'') \<and>
      entries ! 1 = Str (lit ''Add a quote'') \<and>
      entries ! 2 = Str (lit ''Enhance the slide with more professional design elements''))"
proof -
  have calls: "fst (get_refine_options sample_reader (answering (Ok_json (Some two_suggestions_text)))
        sample_body) =
     [Generate_content (suggestions_prompt (lit ''A Flying Car! Service''))]"
    by (simp add: get_refine_options_def sample_body_def answering_def)
  have answer: "answering (Ok_json (Some two_suggestions_text))
      (suggestions_prompt (lit ''A Flying Car! Service'')) = Ok_json (Some two_suggestions_text)"
    by (simp add: answering_def)
  have parsed: "parsed_suggestions sample_reader two_suggestions_text =
      Inr [Str (lit ''Use charts''), Str (lit ''Add a quote'')]"
    by (simp add: two_suggestions_text_def eval_json lit_def)
  from three_suggestions [OF calls answer] parsed obtain entries where
    response: "snd (get_refine_options sample_reader (answering (Ok_json (Some two_suggestions_text)))
             sample_body) =
        Response 200 [(''success'', Val (Bool True)), (''suggestions'', Val (Arr entries))]"
    and len: "length entries = 3"
    and each: "\<forall>i < 3.
       if i < length [Str (lit ''Use charts''), Str (lit ''Add a quote'')]
       then (\<forall>s. (entries ! i = Str s) =
                  ([Str (lit ''Use charts''), Str (lit ''Add a quote'')] ! i = Str s))
       else entries ! i = Str (lit ''Enhance the slide with more professional design elements'')"
    by (auto simp: or_empty_def)
  from each [rule_format, of 0] have e0: "entries ! 0 = Str (lit ''Use charts'')"
    by simp
  from each [rule_format, of 1] have e1: "entries ! 1 = Str (lit ''Add a quote'')"
    by simp
  from each [rule_format, of 2]
  have e2: "entries ! 2 = Str (lit ''Enhance the slide with more professional design elements'')"
    by simp
  from calls answer parsed response len e0 e1 e2 show ?thesis
    by blast
qed

text \<open>
  A number literal beyond the doubles is read as \<open>Infinity\<close>, which the response
  writes as \<open>null\<close>.
\<close>

lemma unrepresentable_number:
  "snd (get_refine_options sample_reader (answering (Ok_json (Some (lit ''[1e400, 2, 3]''))))
         sample_body) =
     Response 200
       [(''success'', Val (Bool True)),
        (''suggestions'', Val (Arr [Null, Num (lit ''2''), Num (lit ''3'')]))]"
  by (simp add: get_refine_options_def sample_body_def answering_def res_json_def exactly_three_def
      sample_reader_def finite_number_def eval_json lit_def)

text \<open>
  C2, as the code has it. The text searched is the answer's text, or the empty string.
  If it has no opening bracket with a closing bracket behind it, nothing is parsed and
  the suggestions are three fillers. Otherwise the text from the first opening bracket
  to the last closing bracket is parsed: if this raises, the suggestions are the three
  fallback suggestions; if not, the value is an array and the suggestions are made from
  it, as the response writes them. The response has status 200 in each case.
\<close>

theorem suggestions_fallback:
  assumes "fst (get_refine_options reader gemini b) = [Generate_content p]"
    and "gemini p = Ok_json t"
  shows "(jsonMatch (or_empty t) = None \<longrightarrow>
      \<not> (\<exists>before between behind. or_empty t = before @ [91] @ between @ [93] @ behind) \<and>
      snd (get_refine_options reader gemini b) =
        Response 200
          [(''success'', Val (Bool True)), (''suggestions'', Val (Arr [filler, filler, filler]))]) \<and>
    (\<forall>found. jsonMatch (or_empty t) = Some found \<longrightarrow>
      (\<exists>before behind. or_empty t = before @ found @ behind \<and> 91 \<notin> set before \<and>
         93 \<notin> set behind \<and> found \<noteq> [] \<and> hd found = 91 \<and> last found = 93) \<and>
      (JSON_parse reader found = None \<longrightarrow>
         snd (get_refine_options reader gemini b) =
           Response 200
             [(''success'', Val (Bool True)), (''suggestions'', Val (Arr fallback_suggestions))]) \<and>
      (\<forall>v. JSON_parse reader found = Some v \<longrightarrow>
         (\<exists>xs. v = Arr xs \<and>
            snd (get_refine_options reader gemini b) =
              Response 200
                [(''success'', Val (Bool True)),
                 (''suggestions'', Val (written (Arr (exactly_three xs))))])))"
proof (intro conjI impI allI)
  assume none: "jsonMatch (or_empty t) = None"
  then have "parsed_suggestions reader (or_empty t) = Inr []"
    by (simp add: parsed_suggestions_def)
  from suggestions_answered [OF assms this]
  show "snd (get_refine_options reader gemini b) =
        Response 200
          [(''success'', Val (Bool True)), (''suggestions'', Val (Arr [filler, filler, filler]))]"
    by (simp add: exactly_three_none written_filler)
  from jsonMatch_none [OF none]
  show "\<not> (\<exists>before between behind. or_empty t = before @ [91] @ between @ [93] @ behind)" .
next
  fix found
  assume found: "jsonMatch (or_empty t) = Some found"
  from jsonMatch_span [OF found]
  show "\<exists>before behind. or_empty t = before @ found @ behind \<and> 91 \<notin> set before \<and>
         93 \<notin> set behind \<and> found \<noteq> [] \<and> hd found = 91 \<and> last found = 93" .
  {
    assume "JSON_parse reader found = None"
    with found have "parsed_suggestions reader (or_empty t) = Inr fallback_suggestions"
      by (simp add: parsed_suggestions_def)
    from suggestions_answered [OF assms this]
    show "snd (get_refine_options reader gemini b) =
           Response 200
             [(''success'', Val (Bool True)), (''suggestions'', Val (Arr fallback_suggestions))]"
      by (simp add: exactly_three_def fallback_suggestions_def)
  }
  {
    fix v
    assume v: "JSON_parse reader found = Some v"
    from jsonMatch_span [OF found] obtain r where "found = 91 # r"
      by (cases found) auto
    with JSON_parse_bracket [of reader r v] v obtain xs where xs: "v = Arr xs" by auto
    with found v have "parsed_suggestions reader (or_empty t) = Inr xs"
      by (simp add: parsed_suggestions_def)
    from suggestions_answered [OF assms this] xs
    show "\<exists>xs. v = Arr xs \<and>
            snd (get_refine_options reader gemini b) =
              Response 200
                [(''success'', Val (Bool True)),
                 (''suggestions'', Val (written (Arr (exactly_three xs))))]"
      by blast
  }
qed

theorem suggestions_fallback_counterexample:
  "snd (get_refine_options sample_reader (answering (Ok_json (Some (lit ''No suggestions today.''))))
         sample_body) =
     Response 200
       [(''success'', Val (Bool True)), (''suggestions'', Val (Arr [filler, filler, filler]))] \<and>
   [filler, filler, filler] \<noteq> fallback_suggestions"
proof
  have "parsed_suggestions sample_reader (lit ''No suggestions today.'') = Inr []"
    by (simp add: parsed_suggestions_def jsonMatch_def lit_def)
  then show "snd (get_refine_options sample_reader
      (answering (Ok_json (Some (lit ''No suggestions today.'')))) sample_body) =
     Response 200
       [(''success'', Val (Bool True)), (''suggestions'', Val (Arr [filler, filler, filler]))]"
    by (simp add: get_refine_options_def sample_body_def answering_def res_json_def
        exactly_three_none or_empty_def written_filler)
  have "hd (lit ''Enhance the slide with more professional design elements'') \<noteq>
      hd (lit ''Add more visual elements and data visualizations'')"
    by (simp add: lit_def)
  then have "filler \<noteq> hd fallback_suggestions"
    unfolding filler_def fallback_suggestions_def by auto
  then show "[filler, filler, filler] \<noteq> fallback_suggestions"
    by (auto simp: fallback_suggestions_def)
qed

theorem suggestions_fallback_witness:
  "fst (get_refine_options sample_reader (answering (Ok_json (Some malformed_text))) sample_body) =
     [Generate_content (suggestions_prompt (lit ''A Flying Car! Service''))] \<and>
   answering (Ok_json (Some malformed_text)) (suggestions_prompt (lit ''A Flying Car! Service'')) =
     Ok_json (Some malformed_text) \<and>
   jsonMatch (or_empty (Some malformed_text)) = Some (lit ''[Use charts, Add a quote]'') \<and>
   JSON_parse sample_reader (lit ''[Use charts, Add a quote]'') = None \<and>
   snd (get_refine_options sample_reader (answering (Ok_json (Some malformed_text))) sample_body) =
     Response 200
       [(''success'', Val (Bool True)), (''suggestions'', Val (Arr fallback_suggestions))]"
proof -
  have calls: "fst (get_refine_options sample_reader (answering (Ok_json (Some malformed_text)))
        sample_body) =
     [Generate_content (suggestions_prompt (lit ''A Flying Car! Service''))]"
    by (simp add: get_refine_options_def sample_body_def answering_def)
  have answer: "answering (Ok_json (Some malformed_text))
      (suggestions_prompt (lit ''A Flying Car! Service'')) = Ok_json (Some malformed_text)"
    by (simp add: answering_def)
  have found: "jsonMatch (or_empty (Some malformed_text)) = Some (lit ''[Use charts, Add a quote]'')"
    by (simp add: or_empty_def malformed_text_def jsonMatch_def lit_def)
  have failed: "JSON_parse sample_reader (lit ''[Use charts, Add a quote]'') = None"
    by (simp add: eval_json lit_def)
  from suggestions_fallback [OF calls answer] found failed
  have "snd (get_refine_options sample_reader (answering (Ok_json (Some malformed_text)))
        sample_body) =
     Response 200
       [(''success'', Val (Bool True)), (''suggestions'', Val (Arr fallback_suggestions))]"
    by blast
  with calls answer found failed show ?thesis by blast
qed

section \<open>The selected option is not validated\<close>

text \<open>The status of a response.\<close>

fun status :: "response \<Rightarrow> nat" where
  "status (Response code fs) = code"

lemma status_res_json [simp]: "status (res_json code fs) = code"
  by (simp add: res_json_def)











section \<open>The concept summary of a slide\<close>

text \<open>
  The summary in the words of the specification. \<open>occurs m s\<close>: the text \<open>m\<close> is a
  part of \<open>s\<close>. \<open>concept_block s block\<close>: \<open>block\<close> is the text of \<open>s\<close> between the
  first marker and the next blank line, or the end: no marker begins earlier, two line
  feeds or the end follow the block, and no two line feeds begin inside it.
  \<open>bold_removed s d\<close>: \<open>d\<close> is \<open>s\<close> without the bold markers, that is, \<open>s\<close> is made
  of pieces with a marker between each two, \<open>d\<close> is the pieces put together, and no
  marker is left in it.
\<close>

definition occurs :: "jsstring \<Rightarrow> jsstring \<Rightarrow> bool" where
  "occurs m s = (\<exists>before behind. s = before @ m @ behind)"

definition concept_block :: "jsstring \<Rightarrow> jsstring \<Rightarrow> bool" where
  "concept_block s block =
     (\<exists>before behind.
        s = before @ lit ''SLIDE CONCEPT:'' @ block @ behind \<and>
        (\<forall>before' behind'. s = before' @ lit ''SLIDE CONCEPT:'' @ behind' \<longrightarrow>
           length before \<le> length before') \<and>
        (behind = [] \<or> take 2 behind = [10, 10]) \<and>
        \<not> (\<exists>u v. length u < length block \<and> block @ behind = u @ [10, 10] @ v))"

definition bold_removed :: "jsstring \<Rightarrow> jsstring \<Rightarrow> bool" where
  "bold_removed s d =
     ((\<exists>pieces. s = join [42, 42] pieces \<and> d = concat pieces) \<and> \<not> occurs [42, 42] d)"

lemma after_prefix_iff: "after_prefix m s = Some r \<longleftrightarrow> s = m @ r"
  by (induction m s rule: after_prefix.induct) auto

lemma after_first_Some:
  assumes "after_first m s = Some r"
  shows "\<exists>before. s = before @ m @ r \<and>
    (\<forall>before' behind'. s = before' @ m @ behind' \<longrightarrow> length before \<le> length before')"
  using assms
proof (induction s arbitrary: r)
  case Nil
  then have "[] = [] @ m @ r" by (simp add: after_prefix_iff)
  then show ?case by (metis le0 list.size(3))
next
  case (Cons c cs)
  show ?case
  proof (cases "after_prefix m (c # cs)")
    case (Some r')
    with Cons.prems have "c # cs = [] @ m @ r" by (simp add: after_prefix_iff)
    then show ?thesis by (metis le0 list.size(3))
  next
    case None
    with Cons.prems have "after_first m cs = Some r" by simp
    from Cons.IH [OF this] obtain before where
      b: "cs = before @ m @ r"
      and least: "\<forall>before' behind'. cs = before' @ m @ behind' \<longrightarrow> length before \<le> length before'"
      by blast
    have "length (c # before) \<le> length before'" if "c # cs = before' @ m @ behind'" for before' behind'
    proof (cases before')
      case Nil
      with that None show ?thesis by (simp add: after_prefix_iff [symmetric])
    next
      case (Cons d ds)
      with that have "cs = ds @ m @ behind'" by simp
      with least have "length before \<le> length ds" by blast
      with Cons show ?thesis by simp
    qed
    with b show ?thesis
      by (intro exI [of _ "c # before"]) auto
  qed
qed

lemma after_first_None:
  assumes "after_first m s = None"
  shows "\<not> occurs m s"
  using assms
proof (induction s)
  case Nil
  then show ?case by (cases m) (auto simp: occurs_def)
next
  case (Cons c cs)
  then have here: "after_prefix m (c # cs) = None" and later: "\<not> occurs m cs"
    by (auto split: option.splits)
  show ?case
  proof
    assume "occurs m (c # cs)"
    then obtain before behind where s: "c # cs = before @ m @ behind"
      by (auto simp: occurs_def)
    show False
    proof (cases before)
      case Nil
      with s here show False by (simp add: after_prefix_iff [symmetric])
    next
      case (Cons d ds)
      with s have "cs = ds @ m @ behind" by simp
      with later show False by (auto simp: occurs_def)
    qed
  qed
qed


lemma until_blank_line_split:
  "\<exists>behind. r = until_blank_line r @ behind \<and> (behind = [] \<or> take 2 behind = [10, 10]) \<and>
     \<not> (\<exists>u v. length u < length (until_blank_line r) \<and> r = u @ [10, 10] @ v)"
proof (induction r rule: until_blank_line.induct)
  case 1
  show ?case by simp
next
  case (2 c)
  have "[c] \<noteq> u @ [10, 10] @ v" for u v
    by (cases u) auto
  then show ?case by simp
next
  case (3 c d cs)
  show ?case
  proof (cases "c = 10 \<and> d = 10")
    case True
    then show ?thesis by simp
  next
    case False
    with 3 obtain behind where
      split: "d # cs = until_blank_line (d # cs) @ behind"
      and rest: "behind = [] \<or> take 2 behind = [10, 10]"
      and none: "\<not> (\<exists>u v. length u < length (until_blank_line (d # cs)) \<and> d # cs = u @ [10, 10] @ v)"
      by auto
    have "\<not> (length u < Suc (length (until_blank_line (d # cs))) \<and> c # d # cs = u @ [10, 10] @ v)"
      for u v
    proof (cases u)
      case Nil
      with False show ?thesis by auto
    next
      case (Cons e es)
      with none show ?thesis by auto
    qed
    with False split rest show ?thesis
      by (intro exI [of _ behind]) auto
  qed
qed

lemma remove_bold_pieces:
  "\<exists>pieces. s = join [42, 42] pieces \<and> remove_bold s = concat pieces"
proof (induction s rule: remove_bold.induct)
  case 1
  have "[] = join [42, 42] [] \<and> remove_bold [] = concat []" by simp
  then show ?case by blast
next
  case (2 c)
  have "[c] = join [42, 42] [[c]] \<and> remove_bold [c] = concat [[c]]" by simp
  then show ?case by blast
next
  case (3 c d cs)
  show ?case
  proof (cases "c = 42 \<and> d = 42")
    case True
    with 3 obtain pieces where p: "cs = join [42, 42] pieces" "remove_bold cs = concat pieces"
      by auto
    define qs where "qs = (if pieces = [] then [[]] else pieces)"
    have "cs = join [42, 42] qs" and "remove_bold cs = concat qs" and "qs \<noteq> []"
      using p by (auto simp: qs_def)
    then have "c # d # cs = join [42, 42] ([] # qs) \<and> remove_bold (c # d # cs) = concat ([] # qs)"
      using True by (cases qs) auto
    then show ?thesis by blast
  next
    case False
    with 3 obtain pieces where p: "d # cs = join [42, 42] pieces"
      "remove_bold (d # cs) = concat pieces"
      by auto
    then obtain q qs where pieces: "pieces = q # qs"
      by (cases pieces) auto
    have step: "remove_bold (c # d # cs) = c # remove_bold (d # cs)"
      using False by auto
    have joined: "join [42, 42] ((c # q) # qs) = c # join [42, 42] (q # qs)"
      by (cases qs) simp_all
    have "c # d # cs = join [42, 42] ((c # q) # qs)"
      unfolding joined using p(1) pieces by simp
    moreover have "remove_bold (c # d # cs) = concat ((c # q) # qs)"
      unfolding step p(2) pieces by simp
    ultimately show ?thesis by blast
  qed
qed

lemma occurs_bold_Cons:
  "occurs [42, 42] (c # r) \<longleftrightarrow> (c = 42 \<and> r \<noteq> [] \<and> hd r = 42) \<or> occurs [42, 42] r"
proof
  assume "occurs [42, 42] (c # r)"
  then obtain before behind where s: "c # r = before @ [42, 42] @ behind"
    by (auto simp: occurs_def)
  show "(c = 42 \<and> r \<noteq> [] \<and> hd r = 42) \<or> occurs [42, 42] r"
  proof (cases before)
    case Nil
    with s show ?thesis by auto
  next
    case (Cons e es)
    with s have "r = es @ [42, 42] @ behind" by simp
    then show ?thesis by (auto simp: occurs_def)
  qed
next
  assume "(c = 42 \<and> r \<noteq> [] \<and> hd r = 42) \<or> occurs [42, 42] r"
  then show "occurs [42, 42] (c # r)"
  proof
    assume "c = 42 \<and> r \<noteq> [] \<and> hd r = 42"
    then have "c # r = [] @ [42, 42] @ tl r" by (cases r) auto
    then show ?thesis unfolding occurs_def by blast
  next
    assume "occurs [42, 42] r"
    then obtain before behind where "r = before @ [42, 42] @ behind"
      by (auto simp: occurs_def)
    then have "c # r = (c # before) @ [42, 42] @ behind" by simp
    then show ?thesis unfolding occurs_def by blast
  qed
qed

lemma remove_bold_other: "d \<noteq> 42 \<Longrightarrow> remove_bold (d # cs) = d # remove_bold cs"
  by (cases cs) auto

lemma remove_bold_none: "\<not> occurs [42, 42] (remove_bold s)"
proof (induction s rule: remove_bold.induct)
  case 1
  show ?case by (simp add: occurs_def)
next
  case (2 c)
  have "[c] \<noteq> before @ [42, 42] @ behind" for before behind
    by (cases before) auto
  then show ?case by (simp add: occurs_def)
next
  case (3 c d cs)
  show ?case
  proof (cases "c = 42 \<and> d = 42")
    case True
    with 3 show ?thesis by simp
  next
    case False
    with 3 have ih: "\<not> occurs [42, 42] (remove_bold (d # cs))" by simp
    have "\<not> (c = 42 \<and> remove_bold (d # cs) \<noteq> [] \<and> hd (remove_bold (d # cs)) = 42)"
      using False remove_bold_other [of d cs] by auto
    moreover have step: "remove_bold (c # d # cs) = c # remove_bold (d # cs)"
      using False by auto
    ultimately show ?thesis
      unfolding step occurs_bold_Cons using ih by blast
  qed
qed


text \<open>
  The summary \<open>d\<close> for the text searched: the block behind the marker, trimmed and
  without bold markers, or the fallback when there is no marker. The text searched is
  the text of the model's answer, or the idea when that text is empty or absent.
\<close>

definition summary_of :: "jsstring \<Rightarrow> jsstring \<Rightarrow> jsstring \<Rightarrow> bool" where
  "summary_of searched d fallback =
     ((occurs (lit ''SLIDE CONCEPT:'') searched \<longrightarrow>
         (\<exists>block. concept_block searched block \<and> bold_removed (trim block) d)) \<and>
      (\<not> occurs (lit ''SLIDE CONCEPT:'') searched \<longrightarrow> d = fallback))"

definition text_or_idea :: "jsstring option \<Rightarrow> jsstring \<Rightarrow> jsstring" where
  "text_or_idea t idea = (case t of None \<Rightarrow> idea | Some s \<Rightarrow> if s = [] then idea else s)"

lemma conceptMatch_Some:
  assumes "conceptMatch s = Some block"
  shows "concept_block s block \<and> occurs (lit ''SLIDE CONCEPT:'') s"
proof -
  from assms obtain r where r: "after_first (lit ''SLIDE CONCEPT:'') s = Some r"
    and block: "block = until_blank_line r"
    by (auto simp: conceptMatch_def)
  from after_first_Some [OF r] obtain before where
    s: "s = before @ lit ''SLIDE CONCEPT:'' @ r"
    and least: "\<forall>before' behind'. s = before' @ lit ''SLIDE CONCEPT:'' @ behind' \<longrightarrow>
      length before \<le> length before'"
    by blast
  from until_blank_line_split [of r] obtain behind where
    split: "r = block @ behind"
    and rest: "behind = [] \<or> take 2 behind = [10, 10]"
    and none: "\<not> (\<exists>u v. length u < length block \<and> r = u @ [10, 10] @ v)"
    unfolding block by blast
  have "s = before @ lit ''SLIDE CONCEPT:'' @ block @ behind"
    using s split by simp
  with least rest none split have "concept_block s block"
    unfolding concept_block_def by blast
  moreover from s have "occurs (lit ''SLIDE CONCEPT:'') s"
    unfolding occurs_def by blast
  ultimately show ?thesis by simp
qed

lemma conceptMatch_None:
  assumes "conceptMatch s = None"
  shows "\<not> occurs (lit ''SLIDE CONCEPT:'') s"
  using assms after_first_None [of "lit ''SLIDE CONCEPT:''" s]
  by (simp add: conceptMatch_def)

lemma bold_removed_remove_bold: "bold_removed s (remove_bold s)"
  unfolding bold_removed_def using remove_bold_pieces [of s] remove_bold_none [of s] by simp

lemma final_display_summary:
  assumes "final_display searched (Str idea) concept = Inr d"
  shows "summary_of searched d (final_fallback idea concept)"
proof (cases "conceptMatch searched")
  case None
  with assms conceptMatch_None [OF None] show ?thesis
    by (simp add: final_display_def summary_of_def)
next
  case (Some block)
  with assms have "d = remove_bold (trim block)"
    by (simp add: final_display_def)
  with conceptMatch_Some [OF Some] bold_removed_remove_bold [of "trim block"] show ?thesis
    unfolding summary_of_def by blast
qed

lemma refine_display_summary:
  assumes "refine_display searched (Str idea) concept = Inr d"
  shows "summary_of searched d (refine_fallback idea concept)"
proof (cases "conceptMatch searched")
  case None
  with assms conceptMatch_None [OF None] show ?thesis
    by (simp add: refine_display_def summary_of_def)
next
  case (Some block)
  with assms have "d = remove_bold (trim block)"
    by (simp add: refine_display_def)
  with conceptMatch_Some [OF Some] bold_removed_remove_bold [of "trim block"] show ?thesis
    unfolding summary_of_def by blast
qed

lemma description_field:
  assumes "slide_response d extra r = Response 200 fs"
  shows "map_of fs ''description'' = Some (Val (Str d))"
  using slide_response_200 [OF assms] by auto

lemma generate_final_success:
  assumes "prompt b = Str idea"
    and "snd (generate_final inherited gemini imagen b) = Response 200 fs"
  shows "\<exists>concept t d.
    selectedConcept inherited (selectedOption b) = Some concept \<and>
    gemini (final_text_prompt idea concept) = Ok_json t \<and>
    final_display (text_or_idea t idea) (Str idea) concept = Inr d \<and>
    map_of fs ''description'' = Some (Val (Str d))"
  using assms unfolding generate_final_def Let_def
  by (auto simp: res_json_def or_prompt_def text_or_idea_def dest!: description_field
      split: if_splits option.splits sum.splits reply.splits)

lemma refine_slide_success:
  assumes "prompt b = Str idea"
    and "snd (refine_slide inherited gemini imagen b) = Response 200 fs"
  shows "\<exists>concept instruction t d.
    selectedConcept inherited (selectedOption b) = Some concept \<and>
    refinementInstruction b = Str instruction \<and>
    gemini (refine_text_prompt idea concept instruction) = Ok_json t \<and>
    refine_display (text_or_idea t idea) (Str idea) concept = Inr d \<and>
    map_of fs ''description'' = Some (Val (Str d))"
  using assms unfolding refine_slide_def Let_def
  by (cases "refinementInstruction b")
     (auto simp: res_json_def or_prompt_def text_or_idea_def dest!: description_field
      split: if_splits option.splits sum.splits reply.splits)


text \<open>
  C4, as the code has it. For an idea that is a string, the \<open>description\<close> of a
  response of status 200 of \<open>generate_final\<close> and \<open>refine_slide\<close> comes from the text
  searched, which is the text of the model's answer and, when that is empty or absent,
  the idea. If the marker \<open>SLIDE CONCEPT:\<close> occurs in it, the description is the text
  between the first marker and the next blank line (or the end), trimmed, with the bold
  markers removed. If not, it is the fallback of the endpoint, with the first 50
  (\<open>generate_final\<close>) or 40 (\<open>refine_slide\<close>) characters of the idea and the style.
\<close>

theorem concept_summary:
  assumes "prompt b = Str idea"
  shows
    "(snd (generate_final inherited gemini imagen b) = Response 200 fs \<longrightarrow>
        (\<exists>concept t d.
           selectedConcept inherited (selectedOption b) = Some concept \<and>
           gemini (final_text_prompt idea concept) = Ok_json t \<and>
           map_of fs ''description'' = Some (Val (Str d)) \<and>
           summary_of (text_or_idea t idea) d
             (bullet @ lit '' Headline: '' @ take 50 idea @ lit ''...'' @ nl @
              bullet @ lit '' Style: '' @ concept @ nl @
              bullet @ lit '' Key Points: Professional pitch design''))) \<and>
     (snd (refine_slide inherited gemini imagen b) = Response 200 fs \<longrightarrow>
        (\<exists>concept instruction t d.
           selectedConcept inherited (selectedOption b) = Some concept \<and>
           refinementInstruction b = Str instruction \<and>
           gemini (refine_text_prompt idea concept instruction) = Ok_json t \<and>
           map_of fs ''description'' = Some (Val (Str d)) \<and>
           summary_of (text_or_idea t idea) d
             (bullet @ lit '' Headline: '' @ take 40 idea @ lit ''...'' @ nl @
              bullet @ lit '' Style: '' @ concept @ nl @
              bullet @ lit '' Refinement: Applied'')))"
proof (intro conjI impI)
  assume "snd (generate_final inherited gemini imagen b) = Response 200 fs"
  from generate_final_success [OF assms this] obtain concept t d where
    "selectedConcept inherited (selectedOption b) = Some concept"
    and "gemini (final_text_prompt idea concept) = Ok_json t"
    and d: "final_display (text_or_idea t idea) (Str idea) concept = Inr d"
    and "map_of fs ''description'' = Some (Val (Str d))"
    by blast
  moreover from final_display_summary [OF d]
  have "summary_of (text_or_idea t idea) d
      (bullet @ lit '' Headline: '' @ take 50 idea @ lit ''...'' @ nl @
       bullet @ lit '' Style: '' @ concept @ nl @
       bullet @ lit '' Key Points: Professional pitch design'')"
    by (simp add: final_fallback_def substring0_def)
  ultimately show "\<exists>concept t d.
           selectedConcept inherited (selectedOption b) = Some concept \<and>
           gemini (final_text_prompt idea concept) = Ok_json t \<and>
           map_of fs ''description'' = Some (Val (Str d)) \<and>
           summary_of (text_or_idea t idea) d
             (bullet @ lit '' Headline: '' @ take 50 idea @ lit ''...'' @ nl @
              bullet @ lit '' Style: '' @ concept @ nl @
              bullet @ lit '' Key Points: Professional pitch design'')"
    by blast
next
  assume "snd (refine_slide inherited gemini imagen b) = Response 200 fs"
  from refine_slide_success [OF assms this] obtain concept instruction t d where
    "selectedConcept inherited (selectedOption b) = Some concept"
    and "refinementInstruction b = Str instruction"
    and "gemini (refine_text_prompt idea concept instruction) = Ok_json t"
    and d: "refine_display (text_or_idea t idea) (Str idea) concept = Inr d"
    and "map_of fs ''description'' = Some (Val (Str d))"
    by blast
  moreover from refine_display_summary [OF d]
  have "summary_of (text_or_idea t idea) d
      (bullet @ lit '' Headline: '' @ take 40 idea @ lit ''...'' @ nl @
       bullet @ lit '' Style: '' @ concept @ nl @
       bullet @ lit '' Refinement: Applied'')"
    by (simp add: refine_fallback_def substring0_def)
  ultimately show "\<exists>concept instruction t d.
           selectedConcept inherited (selectedOption b) = Some concept \<and>
           refinementInstruction b = Str instruction \<and>
           gemini (refine_text_prompt idea concept instruction) = Ok_json t \<and>
           map_of fs ''description'' = Some (Val (Str d)) \<and>
           summary_of (text_or_idea t idea) d
             (bullet @ lit '' Headline: '' @ take 40 idea @ lit ''...'' @ nl @
              bullet @ lit '' Style: '' @ concept @ nl @
              bullet @ lit '' Refinement: Applied'')"
    by blast
qed

theorem concept_summary_counterexample:
  "snd (generate_final no_inherited (answering (Ok_json (Some [])))
      (answering (Ok_json (Some [Some (lit ''QUJD'')])))
      (sample_body\<lparr>prompt := Str (lit ''SLIDE CONCEPT: taxi'')\<rparr>)) =
     Response 200
       [(''success'', Val (Bool True)),
        (''image'', Val (Str (data_uri (Some (lit ''QUJD''))))),
        (''imageBase64'', Val (Str (lit ''QUJD''))),
        (''description'', Val (Str (lit ''taxi'')))]"
  by (simp add: generate_final_def sample_body_def answering_def no_inherited_def or_prompt_def
      final_display_def conceptMatch_def trim_def is_space_def concept_of_key_def concepts_def
      digits.simps res_json_def from_option_def lit_def [of "''0''"]
      lit_def [of "''1''"] lit_def [of "''SLIDE CONCEPT: taxi''"] lit_def [of "''SLIDE CONCEPT:''"]
      lit_def [of "''taxi''"])

lemma sample_final:
  "generate_final no_inherited (answering (Ok_json (Some sample_text)))
      (answering (Ok_json (Some [Some (lit ''QUJD'')]))) sample_body =
     ([Generate_content
         (final_text_prompt (lit ''A Flying Car! Service'') (lit ''with data visualization focus'')),
       Predict (final_image_prompt sample_text)],
      Response 200
        [(''success'', Val (Bool True)),
         (''image'', Val (Str (data_uri (Some (lit ''QUJD''))))),
         (''imageBase64'', Val (Str (lit ''QUJD''))),
         (''description'', Val (Str sample_summary))])"
proof -
  have nonempty: "sample_text \<noteq> []"
    by (simp add: sample_text_def)
  have matched: "conceptMatch sample_text = Some sample_block"
    by (simp add: conceptMatch_def sample_text_def sample_block_def nl_def bullet_def lit_def)
  have trimmed: "remove_bold (trim sample_block) = sample_summary"
    by (simp add: sample_block_def sample_summary_def trim_def is_space_def nl_def bullet_def lit_def)
  show ?thesis
    by (simp add: generate_final_def sample_body_def answering_def no_inherited_def or_prompt_def
        final_display_def concept_of_key_def concepts_def digits.simps res_json_def
        from_option_def nonempty matched trimmed lit_def [of "''0''"] lit_def [of "''1''"])
qed

theorem concept_summary_witness:
  "prompt sample_body = Str (lit ''A Flying Car! Service'') \<and>
   snd (generate_final no_inherited (answering (Ok_json (Some sample_text)))
      (answering (Ok_json (Some [Some (lit ''QUJD'')]))) sample_body) =
     Response 200
        [(''success'', Val (Bool True)),
         (''image'', Val (Str (data_uri (Some (lit ''QUJD''))))),
         (''imageBase64'', Val (Str (lit ''QUJD''))),
         (''description'', Val (Str sample_summary))] \<and>
   (\<exists>concept t d.
      selectedConcept no_inherited (selectedOption sample_body) = Some concept \<and>
      answering (Ok_json (Some sample_text))
        (final_text_prompt (lit ''A Flying Car! Service'') concept) = Ok_json t \<and>
      map_of
        [(''success'', Val (Bool True)),
         (''image'', Val (Str (data_uri (Some (lit ''QUJD''))))),
         (''imageBase64'', Val (Str (lit ''QUJD''))),
         (''description'', Val (Str sample_summary))] ''description'' = Some (Val (Str d)) \<and>
      summary_of (text_or_idea t (lit ''A Flying Car! Service'')) d
        (bullet @ lit '' Headline: '' @ take 50 (lit ''A Flying Car! Service'') @ lit ''...'' @ nl @
         bullet @ lit '' Style: '' @ concept @ nl @
         bullet @ lit '' Key Points: Professional pitch design''))"
proof -
  have idea: "prompt sample_body = Str (lit ''A Flying Car! Service'')"
    by (simp add: sample_body_def)
  have response: "snd (generate_final no_inherited (answering (Ok_json (Some sample_text)))
      (answering (Ok_json (Some [Some (lit ''QUJD'')]))) sample_body) =
     Response 200
        [(''success'', Val (Bool True)),
         (''image'', Val (Str (data_uri (Some (lit ''QUJD''))))),
         (''imageBase64'', Val (Str (lit ''QUJD''))),
         (''description'', Val (Str sample_summary))]"
    by (simp add: sample_final)
  from concept_summary [OF idea, where inherited = no_inherited
      and gemini = "answering (Ok_json (Some sample_text))"
      and imagen = "answering (Ok_json (Some [Some (lit ''QUJD'')]))"
      and fs = "[(''success'', Val (Bool True)),
         (''image'', Val (Str (data_uri (Some (lit ''QUJD''))))),
         (''imageBase64'', Val (Str (lit ''QUJD''))),
         (''description'', Val (Str sample_summary))]"] response
  have "\<exists>concept t d.
      selectedConcept no_inherited (selectedOption sample_body) = Some concept \<and>
      answering (Ok_json (Some sample_text))
        (final_text_prompt (lit ''A Flying Car! Service'') concept) = Ok_json t \<and>
      map_of
        [(''success'', Val (Bool True)),
         (''image'', Val (Str (data_uri (Some (lit ''QUJD''))))),
         (''imageBase64'', Val (Str (lit ''QUJD''))),
         (''description'', Val (Str sample_summary))] ''description'' = Some (Val (Str d)) \<and>
      summary_of (text_or_idea t (lit ''A Flying Car! Service'')) d
        (bullet @ lit '' Headline: '' @ take 50 (lit ''A Flying Car! Service'') @ lit ''...'' @ nl @
         bullet @ lit '' Style: '' @ concept @ nl @
         bullet @ lit '' Key Points: Professional pitch design'')"
    by blast
  with idea response show ?thesis by (intro conjI)
qed

end
